theory Spec2Isabelle
  imports Complex_Main "HOL-Library.Sublist" "HOL-Library.Multiset"
begin

section \<open>Python values, errors and strings\<close>

text \<open>
  The plugin is Python 2. An exception that leaves a function is a value of
  \<open>py_error\<close>; a function that may raise returns a sum with \<open>Inl\<close> for the
  exception. \<open>None\<close> is the \<open>None\<close> of an option type.
\<close>

datatype py_error = TypeError | IndexError | KeyError | ValueError | AssertionError

datatype py_value = PyInt int | PyStr string

text \<open>Truth value of an optional Python value, as \<open>if value:\<close> tests it.\<close>

fun truthy :: "py_value option \<Rightarrow> bool" where
  "truthy None = False"
| "truthy (Some (PyInt n)) = (n \<noteq> 0)"
| "truthy (Some (PyStr s)) = (s \<noteq> [])"

definition digit_char :: "nat \<Rightarrow> char" where
  "digit_char d = char_of (48 + d)"

fun str_nat :: "nat \<Rightarrow> string" where
  "str_nat n = (if n < 10 then [digit_char n] else str_nat (n div 10) @ [digit_char (n mod 10)])"

declare str_nat.simps [simp del]

text \<open>\<open>str(n)\<close> and \<open>"{}".format(n)\<close> for an integer.\<close>

definition str_int :: "int \<Rightarrow> string" where
  "str_int i = (if i < 0 then CHR ''-'' # str_nat (nat (- i)) else str_nat (nat i))"

text \<open>\<open>str(zoom_level)\<close> where the zoom level may be \<open>None\<close>.\<close>

definition str_zoom :: "int option \<Rightarrow> string" where
  "str_zoom z = (case z of None \<Rightarrow> ''None'' | Some i \<Rightarrow> str_int i)"

definition quote :: char where
  "quote = CHR 0x27"

definition is_digit :: "char \<Rightarrow> bool" where
  "is_digit c = (let n = (of_char c :: nat) in 48 \<le> n \<and> n \<le> 57)"

definition digits_value :: "string \<Rightarrow> nat" where
  "digits_value ds = foldl (\<lambda>acc c. 10 * acc + (of_char c - 48)) 0 ds"

text \<open>
  \<open>int(s)\<close> on a string: surrounding blanks are stripped, one sign is allowed,
  and the rest has to be decimal digits; anything else is a ValueError.
\<close>

definition strip :: "string \<Rightarrow> string" where
  "strip s = rev (dropWhile (\<lambda>c. c = CHR '' '') (rev (dropWhile (\<lambda>c. c = CHR '' '') s)))"

definition int_of_str :: "string \<Rightarrow> int option" where
  "int_of_str s =
     (case strip s of
        [] \<Rightarrow> None
      | c # cs \<Rightarrow>
          (if c = CHR ''-'' \<or> c = CHR ''+'' then
             (if cs \<noteq> [] \<and> list_all is_digit cs
              then Some ((if c = CHR ''-'' then - 1 else 1) * int (digits_value cs)) else None)
           else if list_all is_digit (c # cs) then Some (int (digits_value (c # cs)))
           else None))"

definition py_int :: "py_value \<Rightarrow> py_error + int" where
  "py_int v = (case v of PyInt n \<Rightarrow> Inr n
               | PyStr s \<Rightarrow> (case int_of_str s of None \<Rightarrow> Inl ValueError | Some n \<Rightarrow> Inr n))"

section \<open>Tiles and the state shared by both tile sources\<close>

text \<open>
  Modelled from the spec: the class \<open>VectorTile\<close> of \<open>tile_helper\<close> is not among
  the sources. The spec's TileCoordinate is a plain value with a scheme, a zoom level,
  a column and a row; \<open>VectorTile(scheme, zoom_level, col, row)\<close> builds it.
\<close>

record VectorTile =
  scheme :: py_value
  zoom_level :: "int option"
  column :: int
  row :: int

text \<open>
  What a caller can observe of a run besides the returned list: the calls of the
  per-item callback and of the progress handler, in order.
\<close>

datatype event =
    ForEach
  | Message nat
  | MaxProgress nat
  | Progress nat

type_synonym tile_key = "int option \<times> int \<times> int"

record TileSource =
  loaded_tiles :: "tile_key list"
  progress_handler :: bool
  cancelling :: bool
  events :: "event list"

text \<open>
  The cancel flag is set by \<open>cancel()\<close>, which the per-item callback or another
  thread may call at any time. \<open>cancel_req k\<close> tells whether \<open>cancel()\<close> has been called
  between the previous test of the flag and the \<open>k\<close>-th one (counted from 0 within one
  \<open>load_tiles\<close> call). The flag itself is part of the state and stays set.
\<close>

record cancel_env =
  cancel_req :: "nat \<Rightarrow> bool"

definition add_loaded_tile ::
  "int option \<Rightarrow> int \<Rightarrow> int \<Rightarrow> 'a TileSource_scheme \<Rightarrow> 'a TileSource_scheme" where
  "add_loaded_tile zoom col rw s = s\<lparr>loaded_tiles := loaded_tiles s @ [(zoom, col, rw)]\<rparr>"

definition is_tile_loaded ::
  "'a TileSource_scheme \<Rightarrow> int option \<Rightarrow> int \<Rightarrow> int \<Rightarrow> bool" where
  "is_tile_loaded s zoom col rw = ((zoom, col, rw) \<in> set (loaded_tiles s))"

text \<open>The entry that \<open>load_tiles\<close>, called with \<open>zoom\<close>, records for a delivered tile.\<close>

definition key_of :: "int option \<Rightarrow> VectorTile \<times> string \<Rightarrow> tile_key" where
  "key_of zoom td = (zoom, column (fst td), row (fst td))"

definition log_event :: "event \<Rightarrow> 'a TileSource_scheme \<Rightarrow> 'a TileSource_scheme" where
  "log_event e s = s\<lparr>events := events s @ [e]\<rparr>"

text \<open>\<open>if for_each: for_each()\<close> followed by the test of \<open>self._cancelling\<close>.\<close>

definition poll_cancel ::
  "'e cancel_env_scheme \<Rightarrow> bool \<Rightarrow> nat \<Rightarrow> 'a TileSource_scheme \<Rightarrow> 'a TileSource_scheme" where
  "poll_cancel env for_each k s =
     (let s1 = (if for_each then log_event ForEach s else s)
      in s1\<lparr>cancelling := cancelling s1 \<or> cancel_req env k\<rparr>)"

section \<open>The archive source (MBTilesSource)\<close>

text \<open>
  A row of \<open>SELECT zoom_level, tile_column, tile_row, tile_data FROM tiles\<close>, and what
  \<open>cursor.fetchall()\<close> returns: rows of the four tile columns, or rows of a single
  selected column.
\<close>

record tile_rec =
  rec_zoom_level :: int
  rec_tile_column :: int
  rec_tile_row :: int
  rec_tile_data :: string

datatype sql_rows = TileRows "tile_rec list" | ValueRows "py_value option list"

text \<open>
  The sqlite3 library is outside the repository: \<open>can_connect\<close> tells whether
  \<open>sqlite3.connect\<close> succeeds, and \<open>execute\<close> maps the text of a query to the fetched
  rows, or to \<open>None\<close> when \<open>execute\<close> or \<open>fetchall\<close> raises.
\<close>

record archive_env = cancel_env +
  can_connect :: bool
  execute :: "string \<Rightarrow> sql_rows option"

record MBTilesSource = TileSource +
  conn :: bool
  metadata_cache :: "string \<rightharpoonup> py_value option"

type_synonym bounds = "(int \<times> int) \<times> (int \<times> int)"

definition connect_to_db :: "archive_env \<Rightarrow> MBTilesSource \<Rightarrow> MBTilesSource" where
  "connect_to_db env s = s\<lparr>conn := can_connect env\<rparr>"

text \<open>
  \<open>_get_from_db\<close>: connects on first use. Every exception of the \<open>try\<close> block, also
  the AttributeError of \<open>self.conn.cursor()\<close> on a connection that could not be opened,
  is caught, and the function then returns \<open>None\<close>.
\<close>

definition get_from_db :: "archive_env \<Rightarrow> string \<Rightarrow> MBTilesSource \<Rightarrow> sql_rows option \<times> MBTilesSource" where
  "get_from_db env sql s =
     (let s1 = (if \<not> conn s then connect_to_db env s else s)
      in (if conn s1 then execute env sql else None, s1))"

text \<open>
  \<open>rows[0][field_name]\<close>: a row of the four tile columns has no other column, and the
  IndexError of sqlite3.Row is caught by the bare \<open>except\<close>.
\<close>

definition tile_rec_column :: "tile_rec \<Rightarrow> string \<Rightarrow> py_value option" where
  "tile_rec_column r name =
     (if name = ''zoom_level'' then Some (PyInt (rec_zoom_level r))
      else if name = ''tile_column'' then Some (PyInt (rec_tile_column r))
      else if name = ''tile_row'' then Some (PyInt (rec_tile_row r))
      else if name = ''tile_data'' then Some (PyStr (rec_tile_data r))
      else None)"

definition get_single_value ::
  "archive_env \<Rightarrow> string \<Rightarrow> string \<Rightarrow> MBTilesSource \<Rightarrow> py_value option \<times> MBTilesSource" where
  "get_single_value env sql_query field_name s =
     (let (rows, s1) = get_from_db env sql_query s
      in (case rows of
            None \<Rightarrow> None
          | Some (ValueRows []) \<Rightarrow> None
          | Some (ValueRows (v # _)) \<Rightarrow> v
          | Some (TileRows []) \<Rightarrow> None
          | Some (TileRows (r # _)) \<Rightarrow> tile_rec_column r field_name, s1))"

definition metadata_sql :: "string \<Rightarrow> string" where
  "metadata_sql field_name =
     ''select value as '' @ [quote] @ field_name @ [quote] @
     '' from metadata where name = '' @ [quote] @ field_name @ [quote]"

definition get_metadata_value ::
  "archive_env \<Rightarrow> string \<Rightarrow> py_value option \<Rightarrow> MBTilesSource \<Rightarrow> py_value option \<times> MBTilesSource" where
  "get_metadata_value env field_name dflt s =
     (case metadata_cache s field_name of
        Some v \<Rightarrow> (v, s)
      | None \<Rightarrow>
          (let (v, s1) = get_single_value env (metadata_sql field_name) field_name s;
               v1 = (if truthy dflt \<and> \<not> truthy v then dflt else v)
           in (v1, s1\<lparr>metadata_cache := (metadata_cache s1)(field_name \<mapsto> v1)\<rparr>)))"

text \<open>
  \<open>_get_zoom_from_tiles_table\<close>: the query is written as four adjacent string
  literals, which Python joins with nothing between them, before \<open>format\<close> fills
  in the order.
\<close>

definition zoom_sql :: "bool \<Rightarrow> string" where
  "zoom_sql max_zoom =
     ''select zoom_level as '' @ [quote] @ ''zoom_level'' @ [quote] @
     ''from tiles'' @
     ''order by zoom_level '' @ (if max_zoom then ''desc'' else ''asc'') @
     ''limit 1''"

definition get_zoom_from_tiles_table ::
  "archive_env \<Rightarrow> bool \<Rightarrow> MBTilesSource \<Rightarrow> py_value option \<times> MBTilesSource" where
  "get_zoom_from_tiles_table env max_zoom s =
     get_single_value env (zoom_sql max_zoom) ''zoom_level'' s"

text \<open>
  \<open>_get_zoom\<close>. \<open>int(zoom)\<close> may raise ValueError; the state is then the one left by
  the lookups before it.
\<close>

definition get_zoom ::
  "archive_env \<Rightarrow> bool \<Rightarrow> MBTilesSource \<Rightarrow> (py_error + py_value option) \<times> MBTilesSource" where
  "get_zoom env max_zoom s =
     (let field_name = (if max_zoom then ''maxzoom'' else ''minzoom'')
      in case metadata_cache s field_name of
           Some v \<Rightarrow> (Inr v, s)
         | None \<Rightarrow>
             (let (z, s1) = get_metadata_value env field_name None s;
                  (z1, s2) = (if z = None then get_zoom_from_tiles_table env max_zoom s1 else (z, s1))
              in case z1 of
                   None \<Rightarrow> (Inr None, s2\<lparr>metadata_cache := (metadata_cache s2)(field_name \<mapsto> None)\<rparr>)
                 | Some v \<Rightarrow>
                     (case py_int v of
                        Inl e \<Rightarrow> (Inl e, s2)
                      | Inr n \<Rightarrow> (Inr (Some (PyInt n)),
                                  s2\<lparr>metadata_cache := (metadata_cache s2)(field_name \<mapsto> Some (PyInt n))\<rparr>))))"

definition min_zoom :: "archive_env \<Rightarrow> MBTilesSource \<Rightarrow> (py_error + py_value option) \<times> MBTilesSource" where
  "min_zoom env s = get_zoom env False s"

definition max_zoom :: "archive_env \<Rightarrow> MBTilesSource \<Rightarrow> (py_error + py_value option) \<times> MBTilesSource" where
  "max_zoom env s = get_zoom env True s"

text \<open>\<open>scheme()\<close>: the metadata value, or \<open>"tms"\<close> when it is missing or empty.\<close>

definition mb_scheme :: "archive_env \<Rightarrow> MBTilesSource \<Rightarrow> py_value \<times> MBTilesSource" where
  "mb_scheme env s =
     (let (v, s1) = get_metadata_value env ''scheme'' (Some (PyStr ''tms'')) s
      in (case v of None \<Rightarrow> PyStr ''tms'' | Some x \<Rightarrow> x, s1))"

definition create_tile ::
  "archive_env \<Rightarrow> tile_rec \<Rightarrow> MBTilesSource \<Rightarrow> (VectorTile \<times> string) \<times> MBTilesSource" where
  "create_tile env r s =
     (let (sch, s1) = mb_scheme env s
      in ((\<lparr>scheme = sch, zoom_level = Some (rec_zoom_level r),
            column = rec_tile_column r, row = rec_tile_row r\<rparr>, rec_tile_data r), s1))"

text \<open>The text of the query that \<open>load_tiles\<close> builds.\<close>

definition where_clause :: "int option \<Rightarrow> bounds option \<Rightarrow> string" where
  "where_clause zoom bnds =
     (if zoom \<noteq> None \<or> bnds \<noteq> None then
        ''WHERE'' @
        (case zoom of None \<Rightarrow> []
         | Some z \<Rightarrow> '' zoom_level = '' @ str_int z @ (if bnds \<noteq> None then '' AND'' else [])) @
        (case bnds of None \<Rightarrow> []
         | Some ((c0, r0), (c1, r1)) \<Rightarrow>
             '' tile_column BETWEEN '' @ str_int (min c0 c1) @ '' AND '' @ str_int (max c0 c1) @
             '' and tile_row BETWEEN '' @ str_int (min r0 r1) @ '' AND '' @ str_int (max r0 r1))
      else [])"

definition limit_clause :: "int option \<Rightarrow> string" where
  "limit_clause max_tiles = (case max_tiles of None \<Rightarrow> [] | Some n \<Rightarrow> ''LIMIT '' @ str_int n)"

definition sql_command :: "int option \<Rightarrow> bounds option \<Rightarrow> int option \<Rightarrow> string" where
  "sql_command zoom bnds max_tiles =
     ''SELECT zoom_level, tile_column, tile_row, tile_data FROM tiles '' @
     where_clause zoom bnds @ '' '' @ limit_clause max_tiles @ '';''"

text \<open>
  The loop over the fetched rows. \<open>i\<close> is the index of \<open>enumerate\<close>, and the list
  argument holds the rows from index \<open>i\<close> on; \<open>acc\<close> is \<open>tile_data_tuples\<close>.
\<close>

fun load_rows ::
  "archive_env \<Rightarrow> int option \<Rightarrow> bool \<Rightarrow> nat \<Rightarrow> tile_rec list \<Rightarrow> (VectorTile \<times> string) list
     \<Rightarrow> MBTilesSource \<Rightarrow> (VectorTile \<times> string) list \<times> MBTilesSource" where
  "load_rows env zoom for_each i [] acc s = (acc, s)"
| "load_rows env zoom for_each i (r # rs) acc s =
     (let s1 = poll_cancel env for_each i s
      in if cancelling s1 then (acc, s1)
         else
           (let ((tile, data), s2) = create_tile env r s1;
                (acc1, s3) =
                   (if \<not> is_tile_loaded s2 zoom (column tile) (row tile)
                    then (acc @ [(tile, data)], add_loaded_tile zoom (column tile) (row tile) s2)
                    else (acc, s2))
            in load_rows env zoom for_each (i + 1) rs acc1 (log_event (Progress (i + 1)) s3)))"

text \<open>
  \<open>MBTilesSource.load_tiles\<close>. \<open>if rows:\<close> is false for \<open>None\<close> and for an empty
  list. The progress handler is called without a test, which raises TypeError when
  none was set. Rows of a single column have no \<open>zoom_level\<close> column, so
  \<open>_create_tile\<close> raises IndexError on the first of them.
\<close>

definition mb_load_tiles ::
  "archive_env \<Rightarrow> int option \<Rightarrow> bounds option \<Rightarrow> int option \<Rightarrow> bool \<Rightarrow> MBTilesSource
     \<Rightarrow> (py_error + (VectorTile \<times> string) list) \<times> MBTilesSource" where
  "mb_load_tiles env zoom bnds max_tiles for_each s =
     (let s0 = s\<lparr>cancelling := False\<rparr>;
          (rows, s1) = get_from_db env (sql_command zoom bnds max_tiles) s0
      in case rows of
           None \<Rightarrow> (Inr [], s1)
         | Some (TileRows []) \<Rightarrow> (Inr [], s1)
         | Some (ValueRows []) \<Rightarrow> (Inr [], s1)
         | Some (ValueRows (v # vs)) \<Rightarrow>
             (if \<not> progress_handler s1 then (Inl TypeError, s1)
              else
                (let s2 = poll_cancel env for_each 0 (log_event (MaxProgress (length (v # vs))) s1)
                 in if cancelling s2 then (Inr [], s2) else (Inl IndexError, s2)))
         | Some (TileRows (r # rs)) \<Rightarrow>
             (if \<not> progress_handler s1 then (Inl TypeError, s1)
              else
                (let (res, s2) = load_rows env zoom for_each 0 (r # rs) []
                                   (log_event (MaxProgress (length (r # rs))) s1)
                 in (Inr res, s2))))"

section \<open>A tabular store\<close>

text \<open>
  Modelled from the spec: the tabular store collaborator, which answers read-only
  queries against the tables \<open>tiles(zoom_level, tile_column, tile_row, tile_data)\<close> and
  \<open>metadata(name, value)\<close>. The store below reads the text of a query as an SQL engine
  does, token by token and without regard to the case of keywords, understands the
  three shapes of query that the archive source sends, and rejects any other text.
\<close>

datatype token = TWord string | TStr string | TSym char | TBad

definition is_word_char :: "char \<Rightarrow> bool" where
  "is_word_char c =
     (let n = (of_char c :: nat)
      in (48 \<le> n \<and> n \<le> 57) \<or> (65 \<le> n \<and> n \<le> 90) \<or> (97 \<le> n \<and> n \<le> 122)
         \<or> c = CHR ''_'' \<or> c = CHR ''-'')"

definition upper_char :: "char \<Rightarrow> char" where
  "upper_char c = (let n = (of_char c :: nat) in if 97 \<le> n \<and> n \<le> 122 then char_of (n - 32) else c)"

function tokenize :: "string \<Rightarrow> token list" where
  "tokenize [] = []"
| "tokenize (c # cs) =
     (if c = CHR '' '' then tokenize cs
      else if c = quote then
        (case dropWhile (\<lambda>x. x \<noteq> quote) cs of
           [] \<Rightarrow> [TBad]
         | _ # rest \<Rightarrow> TStr (takeWhile (\<lambda>x. x \<noteq> quote) cs) # tokenize rest)
      else if is_word_char c then
        TWord (map upper_char (c # takeWhile is_word_char cs)) # tokenize (dropWhile is_word_char cs)
      else TSym c # tokenize cs)"
  by pat_completeness auto
termination
proof (relation "measure length")
  fix c :: char and cs x21 x22
  assume "dropWhile (\<lambda>x. x \<noteq> quote) cs = x21 # x22"
  then have "length (x21 # x22) \<le> length cs"
    by (metis length_dropWhile_le)
  then show "(x22, c # cs) \<in> measure length" by simp
next
  fix c :: char and cs
  show "(dropWhile is_word_char cs, c # cs) \<in> measure length"
    by (simp add: length_dropWhile_le le_imp_less_Suc)
qed auto

definition column_of :: "string \<Rightarrow> (tile_rec \<Rightarrow> int) option" where
  "column_of name =
     (if name = ''ZOOM_LEVEL'' then Some rec_zoom_level
      else if name = ''TILE_COLUMN'' then Some rec_tile_column
      else if name = ''TILE_ROW'' then Some rec_tile_row
      else None)"

text \<open>
  The conditions of a WHERE clause, joined by AND: \<open>column = n\<close> and
  \<open>column BETWEEN a AND b\<close>. The result is the filter and the tokens left over.
\<close>

fun parse_conds :: "token list \<Rightarrow> ((tile_rec \<Rightarrow> bool) \<times> token list) option" where
  "parse_conds (TWord c # TSym e # TWord n # rest) =
     (case (column_of c, int_of_str n) of
        (Some f, Some v) \<Rightarrow>
          (if e \<noteq> CHR ''='' then None
           else (case rest of
                   TWord a # rest1 \<Rightarrow>
                     (if a = ''AND'' then
                        (case parse_conds rest1 of
                           None \<Rightarrow> None
                         | Some (q, r) \<Rightarrow> Some (\<lambda>x. f x = v \<and> q x, r))
                      else Some (\<lambda>x. f x = v, rest))
                 | _ \<Rightarrow> Some (\<lambda>x. f x = v, rest)))
      | _ \<Rightarrow> None)"
| "parse_conds (TWord c # TWord b # TWord lo # TWord a1 # TWord hi # rest) =
     (case (column_of c, int_of_str lo, int_of_str hi) of
        (Some f, Some l, Some h) \<Rightarrow>
          (if b \<noteq> ''BETWEEN'' \<or> a1 \<noteq> ''AND'' then None
           else (case rest of
                   TWord a # rest1 \<Rightarrow>
                     (if a = ''AND'' then
                        (case parse_conds rest1 of
                           None \<Rightarrow> None
                         | Some (q, r) \<Rightarrow> Some (\<lambda>x. l \<le> f x \<and> f x \<le> h \<and> q x, r))
                      else Some (\<lambda>x. l \<le> f x \<and> f x \<le> h, rest))
                 | _ \<Rightarrow> Some (\<lambda>x. l \<le> f x \<and> f x \<le> h, rest)))
      | _ \<Rightarrow> None)"
| "parse_conds _ = None"

definition tiles_select :: "token list" where
  "tiles_select =
     [TWord ''SELECT'', TWord ''ZOOM_LEVEL'', TSym (CHR '',''), TWord ''TILE_COLUMN'', TSym (CHR '',''),
      TWord ''TILE_ROW'', TSym (CHR '',''), TWord ''TILE_DATA'', TWord ''FROM'', TWord ''TILES'']"

text \<open>A LIMIT clause: a negative limit means no limit, as in SQLite.\<close>

definition apply_limit :: "int option \<Rightarrow> 'a list \<Rightarrow> 'a list" where
  "apply_limit lmt xs = (case lmt of None \<Rightarrow> xs | Some n \<Rightarrow> if n < 0 then xs else take (nat n) xs)"

definition select_tiles :: "tile_rec list \<Rightarrow> token list \<Rightarrow> sql_rows option" where
  "select_tiles tiles toks =
     (case (case toks of
              TWord w # rest \<Rightarrow> if w = ''WHERE'' then parse_conds rest else Some (\<lambda>_. True, toks)
            | _ \<Rightarrow> Some (\<lambda>_. True, toks)) of
        None \<Rightarrow> None
      | Some (p, t1) \<Rightarrow>
          (case (case t1 of
                   TWord w # TWord n # t2 \<Rightarrow>
                     (if w = ''LIMIT'' then map_option (\<lambda>k. (Some k, t2)) (int_of_str n)
                      else Some (None, t1))
                 | _ \<Rightarrow> Some (None, t1)) of
             None \<Rightarrow> None
           | Some (lmt, t2) \<Rightarrow>
               (if t2 = [] \<or> t2 = [TSym (CHR '';'')]
                then Some (TileRows (apply_limit lmt (filter p tiles))) else None)))"

definition store_execute :: "tile_rec list \<Rightarrow> (string \<times> string) list \<Rightarrow> string \<Rightarrow> sql_rows option" where
  "store_execute tiles metadata sql =
     (let toks = tokenize sql
      in if take 10 toks = tiles_select then select_tiles tiles (drop 10 toks)
         else
           (case toks of
              [TWord s, TWord v, TWord a, TStr al, TWord f, TWord m, TWord w, TWord n, TSym e, TStr g] \<Rightarrow>
                (if s = ''SELECT'' \<and> v = ''VALUE'' \<and> a = ''AS'' \<and> f = ''FROM'' \<and> m = ''METADATA''
                    \<and> w = ''WHERE'' \<and> n = ''NAME'' \<and> e = CHR ''=''
                 then Some (ValueRows (map (\<lambda>kv. Some (PyStr (snd kv))) (filter (\<lambda>kv. fst kv = g) metadata)))
                 else None)
            | [TWord s, TWord z, TWord a, TStr al, TWord f, TWord t, TWord ob, TWord b, TWord z1,
               TWord dir, TWord l, TWord one] \<Rightarrow>
                (if s = ''SELECT'' \<and> z = ''ZOOM_LEVEL'' \<and> a = ''AS'' \<and> f = ''FROM'' \<and> t = ''TILES''
                    \<and> ob = ''ORDER'' \<and> b = ''BY'' \<and> z1 = ''ZOOM_LEVEL'' \<and> (dir = ''ASC'' \<or> dir = ''DESC'')
                    \<and> l = ''LIMIT'' \<and> one = ''1''
                 then Some (ValueRows (map (\<lambda>k. Some (PyInt k))
                        (take 1 ((if dir = ''ASC'' then id else rev) (sort (map rec_zoom_level tiles))))))
                 else None)
            | _ \<Rightarrow> None))"

text \<open>A store that can be opened, with the given tables.\<close>

definition store_env :: "tile_rec list \<Rightarrow> (string \<times> string) list \<Rightarrow> (nat \<Rightarrow> bool) \<Rightarrow> archive_env" where
  "store_env tiles metadata creq =
     \<lparr>cancel_req = creq, can_connect = True, execute = store_execute tiles metadata\<rparr>"

text \<open>The source as its constructor leaves it. \<open>set_progress_handler\<close> sets the handler.\<close>

definition new_MBTilesSource :: MBTilesSource where
  "new_MBTilesSource =
     \<lparr>loaded_tiles = [], progress_handler = False, cancelling = False, events = [],
      conn = False, metadata_cache = Map.empty\<rparr>"

definition set_progress_handler :: "'a TileSource_scheme \<Rightarrow> 'a TileSource_scheme" where
  "set_progress_handler s = s\<lparr>progress_handler := True\<rparr>"

section \<open>The remote source (ServerSource)\<close>

text \<open>
  \<open>str.replace(old, new)\<close> for a non-empty \<open>old\<close>, which is what every call in the
  source passes: the occurrences are replaced from left to right.
\<close>

function replace_str :: "string \<Rightarrow> string \<Rightarrow> string \<Rightarrow> string" where
  "replace_str old new s =
     (if s = [] \<or> old = [] then s
      else if prefix old s then new @ replace_str old new (drop (length old) s)
      else hd s # replace_str old new (tl s))"
  by pat_completeness auto
termination
  by (relation "measure (\<lambda>(old, new, s). length s)") (auto simp: neq_Nil_conv)

declare replace_str.simps [simp del]

definition tile_url :: "string \<Rightarrow> int option \<Rightarrow> int \<Rightarrow> int \<Rightarrow> string" where
  "tile_url base_url zoom col rw =
     replace_str ''{y}'' (str_int rw)
       (replace_str ''{x}'' (str_int col)
          (replace_str ''{z}'' (str_zoom zoom) base_url))"

text \<open>
  The collaborators of the remote source are not among the sources. \<open>get_all_tiles\<close>
  (of \<open>tile_helper\<close>) lists the candidate coordinates of the bounds. \<open>load_url\<close>
  (of \<open>FileHelper\<close>) runs in a thread of its own and puts \<open>(content, [col, row])\<close> on the
  queue; \<open>None\<close> is a fetch that fails and leaves nothing on the queue.

  The threads of one page run concurrently. \<open>queued page_offset items joined\<close> is what
  the threads of the page have put on the queue, in the order of the queue, by the time
  the queue is drained, when the first \<open>joined\<close> of them have been joined.
\<close>

type_synonym url_item = "string \<times> int \<times> int"

record server_env = cancel_env +
  get_all_tiles :: "bounds option \<Rightarrow> (int \<times> int) list"
  load_url :: "string \<Rightarrow> string option"
  queued :: "nat \<Rightarrow> url_item list \<Rightarrow> nat \<Rightarrow> url_item list"

text \<open>The state of a ServerSource; \<open>json_tiles\<close> and \<open>json_scheme\<close> are what the
  loaded TileJSON answers to \<open>tiles()\<close> and \<open>scheme()\<close>.\<close>

record ServerSource = TileSource +
  url :: string
  json_tiles :: "string list"
  json_scheme :: py_value

text \<open>What the threads of the given items put on the queue when all of them finish.\<close>

definition fetched :: "(string \<Rightarrow> string option) \<Rightarrow> url_item list \<Rightarrow> url_item list" where
  "fetched load us =
     List.map_filter (\<lambda>(u, col, rw). map_option (\<lambda>content. (content, col, rw)) (load u)) us"

text \<open>
  A schedule of the threads is possible when every joined thread has delivered, nothing
  is delivered that was not fetched, and what is on the queue earlier stays in front of
  what comes later.
\<close>

definition threads_ok :: "server_env \<Rightarrow> bool" where
  "threads_ok env =
     (\<forall>po us j. j \<le> length us \<longrightarrow>
        mset (fetched (load_url env) (take j us)) \<subseteq># mset (queued env po us j)
      \<and> mset (queued env po us j) \<subseteq># mset (fetched (load_url env) us)
      \<and> prefix (queued env po us j) (queued env po us (length us)))"

text \<open>
  The first loop of \<open>ServerSource.load_tiles\<close>. \<open>index\<close> is the index of \<open>enumerate\<close>
  over all candidates; \<open>continue\<close> skips the test of \<open>max_tiles\<close> too.
\<close>

fun build_urls ::
  "'a TileSource_scheme \<Rightarrow> string \<Rightarrow> int option \<Rightarrow> int option \<Rightarrow> nat \<Rightarrow> (int \<times> int) list
     \<Rightarrow> url_item list" where
  "build_urls s base_url zoom max_tiles index [] = []"
| "build_urls s base_url zoom max_tiles index ((col, rw) # ts) =
     (if is_tile_loaded s zoom col rw then build_urls s base_url zoom max_tiles (index + 1) ts
      else (tile_url base_url zoom col rw, col, rw) #
           (if (case max_tiles of None \<Rightarrow> False | Some n \<Rightarrow> n \<noteq> 0 \<and> int index + 1 = n) then []
            else build_urls s base_url zoom max_tiles (index + 1) ts))"

text \<open>
  The second loop of \<open>_load_urls_async\<close>, over the started threads: the callback, the
  test of the cancel flag, the join and the progress report. The result is the number
  of threads joined, the number of tests of the flag so far, and the state.
\<close>

fun join_threads ::
  "'e cancel_env_scheme \<Rightarrow> bool \<Rightarrow> nat \<Rightarrow> nat \<Rightarrow> nat \<Rightarrow> url_item list \<Rightarrow> 'a TileSource_scheme
     \<Rightarrow> nat \<times> nat \<times> 'a TileSource_scheme" where
  "join_threads env for_each page_offset tick index [] s = (index, tick, s)"
| "join_threads env for_each page_offset tick index (u # us) s =
     (let s1 = poll_cancel env for_each tick s
      in if cancelling s1 then (index, tick + 1, s1)
         else join_threads env for_each page_offset (tick + 1) (index + 1) us
                (log_event (Progress (page_offset + index + 1)) s1))"

definition load_urls_async ::
  "server_env \<Rightarrow> bool \<Rightarrow> nat \<Rightarrow> url_item list \<Rightarrow> nat \<Rightarrow> url_item list \<Rightarrow> 'a TileSource_scheme
     \<Rightarrow> url_item list \<times> nat \<times> 'a TileSource_scheme" where
  "load_urls_async env for_each page_offset urls tick queue s =
     (let (joined, tick1, s1) = join_threads env for_each page_offset tick 0 urls s
      in (queue @ queued env page_offset urls joined, tick1, s1))"

text \<open>
  \<open>_do_paged\<close> with \<open>func = _load_urls_async\<close>. \<open>page_nr\<close> grows by \<open>page_size\<close>, and
  \<open>page_offset\<close> is \<open>page_nr * page_size\<close>, as in the source.
\<close>

function do_paged ::
  "server_env \<Rightarrow> bool \<Rightarrow> nat \<Rightarrow> url_item list \<Rightarrow> nat \<Rightarrow> nat \<Rightarrow> url_item list \<Rightarrow> 'a TileSource_scheme
     \<Rightarrow> url_item list \<times> 'a TileSource_scheme" where
  "do_paged env for_each page_size all_items page_nr tick queue s =
     (let items = take page_size (drop page_nr all_items);
          s1 = poll_cancel env False tick s
      in if cancelling s1 \<or> items = [] then (queue, s1)
         else
           (let page_offset = page_nr * page_size;
                r = load_urls_async env for_each page_offset items (tick + 1) queue s1
            in do_paged env for_each page_size all_items (page_nr + page_size)
                 (fst (snd r)) (fst r) (snd (snd r))))"
  by pat_completeness auto
termination
  by (relation "measure (\<lambda>(env, for_each, page_size, all_items, page_nr, tick, queue, s).
        length all_items - page_nr)") (auto simp: Let_def)

declare do_paged.simps [simp del]

text \<open>The loop that drains the queue.\<close>

fun drain_queue ::
  "int option \<Rightarrow> url_item list \<Rightarrow> (VectorTile \<times> string) list \<Rightarrow> ServerSource
     \<Rightarrow> (VectorTile \<times> string) list \<times> ServerSource" where
  "drain_queue zoom [] acc s = (acc, s)"
| "drain_queue zoom ((content, col, rw) # q) acc s =
     drain_queue zoom q
       (acc @ [(\<lparr>scheme = json_scheme s, zoom_level = zoom, column = col, row = rw\<rparr>, content)])
       (add_loaded_tile zoom col rw s)"

text \<open>
  \<open>ServerSource.load_tiles\<close>. \<open>self.json.tiles()[0]\<close> raises IndexError on an empty
  list, and the call of a progress handler that was never set raises TypeError.
\<close>

definition srv_load_tiles ::
  "server_env \<Rightarrow> int option \<Rightarrow> bounds option \<Rightarrow> int option \<Rightarrow> bool \<Rightarrow> ServerSource
     \<Rightarrow> (py_error + (VectorTile \<times> string) list) \<times> ServerSource" where
  "srv_load_tiles env zoom bnds max_tiles for_each s =
     (let s0 = s\<lparr>cancelling := False\<rparr>
      in case json_tiles s0 of
           [] \<Rightarrow> (Inl IndexError, s0)
         | base_url # _ \<Rightarrow>
             (let urls = build_urls s0 base_url zoom max_tiles 0 (get_all_tiles env bnds)
              in if \<not> progress_handler s0 then (Inl TypeError, s0)
                 else
                   (let s1 = log_event (Message (length urls)) s0;
                        (queue, s2) = do_paged env for_each 5 urls 0 0 [] s1;
                        (res, s3) = drain_queue zoom queue [] s2
                    in (Inr res, s3))))"

text \<open>The source as its constructor leaves it, for a descriptor with one template.\<close>

definition new_ServerSource :: "string \<Rightarrow> string \<Rightarrow> ServerSource" where
  "new_ServerSource u template =
     \<lparr>loaded_tiles = [], progress_handler = False, cancelling = False, events = [],
      url = u, json_tiles = [template], json_scheme = PyStr ''xyz''\<rparr>"

text \<open>
  An environment in which every fetch succeeds with the text of its URL and the threads
  deliver in the order in which they were started; a thread that is not joined
  delivers nothing in time.
\<close>

definition grid_env :: "(int \<times> int) list \<Rightarrow> (nat \<Rightarrow> bool) \<Rightarrow> server_env" where
  "grid_env grid creq =
     \<lparr>cancel_req = creq, get_all_tiles = (\<lambda>_. grid), load_url = (\<lambda>u. Some u),
      queued = (\<lambda>po us j. fetched (\<lambda>u. Some u) (take j us))\<rparr>"

section \<open>Decoding and aggregation (VtReader)\<close>

text \<open>
  A geometry of a decoded feature is a nested list of integers. The codec is outside
  the repository: \<open>decompress\<close> is \<open>zlib.decompress\<close> and \<open>mvt_decode\<close> is
  \<open>mapbox_vector_tile.decode\<close>, each with \<open>None\<close> for an exception. A decoded tile is a
  dictionary from layer names to the features of the layer.
\<close>

datatype coords = CInt int | CList "coords list"

record RawFeature =
  raw_type :: int
  raw_geometry :: coords
  raw_properties :: "(string \<times> py_value) list"

type_synonym decoded_layers = "(string \<times> RawFeature list) list"

record codec =
  decompress :: "string \<Rightarrow> string option"
  mvt_decode :: "string \<Rightarrow> decoded_layers option"

record DecodedTile = VectorTile +
  decoded_data :: "decoded_layers option"

text \<open>
  Python floats are not modelled as numbers. The arithmetic of \<open>_calculate_geometry\<close>
  is taken from a record of operations, together with \<open>GlobalMercator().TileBounds\<close>,
  which is not among the sources; \<open>f_trunc\<close> is \<open>int()\<close> on a float.
\<close>

record 'f float_ops =
  TileBounds :: "int \<Rightarrow> int \<Rightarrow> int \<Rightarrow> 'f \<times> 'f \<times> 'f \<times> 'f"
  f_add :: "'f \<Rightarrow> 'f \<Rightarrow> 'f"
  f_sub :: "'f \<Rightarrow> 'f \<Rightarrow> 'f"
  f_mul :: "'f \<Rightarrow> 'f \<Rightarrow> 'f"
  f_div :: "'f \<Rightarrow> 'f \<Rightarrow> 'f"
  f_of_int :: "int \<Rightarrow> 'f"
  f_trunc :: "'f \<Rightarrow> int"

datatype GeoType = Point | LineString | Polygon

record Feature =
  geo_type :: GeoType
  coordinates :: coords
  properties :: "(string \<times> py_value) list"

definition extent :: int where
  "extent = 4096"

definition geo_types :: "int \<Rightarrow> GeoType option" where
  "geo_types t = (if t = 1 then Some Point else if t = 2 then Some LineString
                  else if t = 3 then Some Polygon else None)"

definition decode_binary_tile_data :: "codec \<Rightarrow> string \<Rightarrow> decoded_layers option" where
  "decode_binary_tile_data cd data =
     (case decompress cd data of None \<Rightarrow> None | Some file_content \<Rightarrow> mvt_decode cd file_content)"

definition decode_all_tiles :: "codec \<Rightarrow> (VectorTile \<times> string) list \<Rightarrow> DecodedTile list" where
  "decode_all_tiles cd tiles_with_encoded_data =
     map (\<lambda>(tile, encoded_data).
            VectorTile.extend tile
              (DecodedTile.fields (decode_binary_tile_data cd encoded_data)))
         tiles_with_encoded_data"

text \<open>\<open>_calculate_geometry\<close>; a tile without a zoom level makes the arithmetic of
  \<open>TileBounds\<close> raise TypeError.\<close>

definition calculate_geometry ::
  "'f float_ops \<Rightarrow> int \<times> int \<Rightarrow> 'a VectorTile_scheme \<Rightarrow> py_error + coords" where
  "calculate_geometry fl c tile =
     (case zoom_level tile of
        None \<Rightarrow> Inl TypeError
      | Some z \<Rightarrow>
          (let (t0, t1, t2, t3) = TileBounds fl (column tile) (row tile) z;
               delta_x = f_sub fl t2 t0;
               delta_y = f_sub fl t3 t1;
               merc_easting = f_trunc fl (f_add fl t0
                  (f_mul fl (f_div fl delta_x (f_of_int fl extent)) (f_of_int fl (fst c))));
               merc_northing = f_trunc fl (f_add fl t1
                  (f_mul fl (f_div fl delta_y (f_of_int fl extent)) (f_of_int fl (snd c))))
           in Inr (CList [CInt merc_easting, CInt merc_northing])))"

text \<open>
  What the corners of a tile need of the arithmetic, on one axis of the bounds from \<open>lo\<close>
  to \<open>hi\<close>: dividing the span by the extent and multiplying by it again gives the span,
  an offset of zero steps leaves \<open>lo\<close> as it is, and \<open>lo\<close> plus the span is \<open>hi\<close>.
  Python's floats meet the three on bounds that are symmetric about zero, as those of
  the tile of zoom level 0 are: the extent is a power of two.
\<close>

definition exact_span :: "'f float_ops \<Rightarrow> 'f \<Rightarrow> 'f \<Rightarrow> bool" where
  "exact_span fl lo hi =
     (let delta = f_sub fl hi lo;
          step = f_div fl delta (f_of_int fl extent)
      in f_mul fl step (f_of_int fl extent) = delta
         \<and> f_add fl lo (f_mul fl step (f_of_int fl 0)) = lo
         \<and> f_add fl lo delta = hi)"

text \<open>
  \<open>map_coordinates_recursive\<close>: iterating over an integer, or taking its \<open>len\<close>,
  raises TypeError; a list of exactly two integers is a coordinate tuple.
\<close>

fun coordinate_tuple :: "coords \<Rightarrow> (int \<times> int) option" where
  "coordinate_tuple (CList [CInt a, CInt b]) = Some (a, b)"
| "coordinate_tuple _ = None"

text \<open>\<open>tmp.append(newval)\<close> after the rest of the loop, with the first exception winning.\<close>

definition append_result :: "py_error + 'a \<Rightarrow> py_error + 'a list \<Rightarrow> py_error + 'a list" where
  "append_result newval rest =
     (case newval of
        Inl e \<Rightarrow> Inl e
      | Inr v \<Rightarrow> (case rest of Inl e \<Rightarrow> Inl e | Inr tmp \<Rightarrow> Inr (v # tmp)))"

fun map_coordinates_recursive :: "(int \<times> int \<Rightarrow> py_error + coords) \<Rightarrow> coords \<Rightarrow> py_error + coords"
  and map_coordinates_list :: "(int \<times> int \<Rightarrow> py_error + coords) \<Rightarrow> coords list \<Rightarrow> py_error + coords list" where
  "map_coordinates_recursive func (CInt n) = Inl TypeError"
| "map_coordinates_recursive func (CList cs) = map_sum id CList (map_coordinates_list func cs)"
| "map_coordinates_list func [] = Inr []"
| "map_coordinates_list func (CInt n # cs) = Inl TypeError"
| "map_coordinates_list func (CList xs # cs) =
     append_result
       (case coordinate_tuple (CList xs) of
          Some c \<Rightarrow> func c
        | None \<Rightarrow> map_coordinates_recursive func (CList xs))
       (map_coordinates_list func cs)"

definition create_geojson_feature ::
  "'f float_ops \<Rightarrow> RawFeature \<Rightarrow> 'a VectorTile_scheme \<Rightarrow> py_error + Feature \<times> GeoType" where
  "create_geojson_feature fl feature tile =
     (case geo_types (raw_type feature) of
        None \<Rightarrow> Inl KeyError
      | Some gt \<Rightarrow>
          (case map_coordinates_recursive (\<lambda>c. calculate_geometry fl c tile) (raw_geometry feature) of
             Inl e \<Rightarrow> Inl e
           | Inr (CInt n) \<Rightarrow> Inl TypeError
           | Inr (CList cs) \<Rightarrow>
               (if gt = Point then
                  (case cs of
                     [] \<Rightarrow> Inl IndexError
                   | c # _ \<Rightarrow> Inr (\<lparr>geo_type = gt, coordinates = c,
                                      properties = raw_properties feature\<rparr>, gt))
                else Inr (\<lparr>geo_type = gt, coordinates = CList cs,
                            properties = raw_properties feature\<rparr>, gt))))"

text \<open>
  The feature path of a feature. The subclass is read only inside the test for a class,
  and the assertion is reached only after that. \<open>"." + x\<close> raises TypeError when \<open>x\<close> is not
  a string.
\<close>

definition feature_path_of :: "string \<Rightarrow> (string \<times> py_value) list \<Rightarrow> py_error + string" where
  "feature_path_of layer_name props =
     (let feature_class = (if ''class'' \<in> fst ` set props then map_of props ''class'' else None);
          feature_subclass =
            (if ''class'' \<in> fst ` set props \<and> ''subclass'' \<in> fst ` set props
             then map_of props ''subclass'' else None)
      in if truthy feature_subclass \<and> \<not> truthy feature_class then Inl AssertionError
         else if \<not> truthy feature_class then Inr layer_name
         else (case feature_class of
                 Some (PyStr c) \<Rightarrow>
                   (if \<not> truthy feature_subclass then Inr (layer_name @ ''.'' @ c)
                    else (case feature_subclass of
                            Some (PyStr sc) \<Rightarrow> Inr (layer_name @ ''.'' @ c @ ''.'' @ sc)
                          | _ \<Rightarrow> Inl TypeError))
               | _ \<Rightarrow> Inl TypeError))"

type_synonym feature_store = "string \<rightharpoonup> Feature list"

text \<open>The body of the inner loop of \<open>write_features\<close>, for one feature of a layer.\<close>

definition write_feature ::
  "'f float_ops \<Rightarrow> 'a VectorTile_scheme \<Rightarrow> string \<Rightarrow> RawFeature \<Rightarrow> feature_store
     \<Rightarrow> (py_error + unit) \<times> feature_store" where
  "write_feature fl tile layer_name feature all_features =
     (case create_geojson_feature fl feature tile of
        Inl e \<Rightarrow> (Inl e, all_features)
      | Inr (data, gt) \<Rightarrow>
          (case feature_path_of layer_name (properties data) of
             Inl e \<Rightarrow> (Inl e, all_features)
           | Inr feature_path \<Rightarrow>
               (let store1 = (if feature_path \<notin> dom all_features
                              then all_features(feature_path \<mapsto> []) else all_features)
                in (Inr (), store1(feature_path \<mapsto> the (store1 feature_path) @ [data])))))"

fun write_layer_features ::
  "'f float_ops \<Rightarrow> 'a VectorTile_scheme \<Rightarrow> string \<Rightarrow> RawFeature list \<Rightarrow> feature_store
     \<Rightarrow> (py_error + unit) \<times> feature_store" where
  "write_layer_features fl tile layer_name [] all_features = (Inr (), all_features)"
| "write_layer_features fl tile layer_name (f # fs) all_features =
     (case write_feature fl tile layer_name f all_features of
        (Inl e, st) \<Rightarrow> (Inl e, st)
      | (Inr _, st) \<Rightarrow> write_layer_features fl tile layer_name fs st)"

fun write_layers ::
  "'f float_ops \<Rightarrow> 'a VectorTile_scheme \<Rightarrow> decoded_layers \<Rightarrow> feature_store
     \<Rightarrow> (py_error + unit) \<times> feature_store" where
  "write_layers fl tile [] all_features = (Inr (), all_features)"
| "write_layers fl tile ((layer_name, tile_features) # ls) all_features =
     (case write_layer_features fl tile layer_name tile_features all_features of
        (Inl e, st) \<Rightarrow> (Inl e, st)
      | (Inr _, st) \<Rightarrow> write_layers fl tile ls st)"

text \<open>\<open>write_features\<close>: \<open>for layer_name in tile.decoded_data\<close> raises TypeError when
  \<open>decoded_data\<close> is \<open>None\<close>.\<close>

definition write_features ::
  "'f float_ops \<Rightarrow> DecodedTile \<Rightarrow> feature_store \<Rightarrow> (py_error + unit) \<times> feature_store" where
  "write_features fl tile all_features =
     (case decoded_data tile of
        None \<Rightarrow> (Inl TypeError, all_features)
      | Some layers \<Rightarrow> write_layers fl tile layers all_features)"

text \<open>
  \<open>process_tiles\<close>, up to the call that hands the collections to the layer tree: the
  result is the store that \<open>create_layers_for_geotypes\<close> would read, or the exception
  that ends the run before that call.
\<close>

fun process_tiles ::
  "'f float_ops \<Rightarrow> DecodedTile list \<Rightarrow> feature_store \<Rightarrow> (py_error + unit) \<times> feature_store" where
  "process_tiles fl [] all_features = (Inr (), all_features)"
| "process_tiles fl (tile # tiles) all_features =
     (case write_features fl tile all_features of
        (Inl e, st) \<Rightarrow> (Inl e, st)
      | (Inr _, st) \<Rightarrow> process_tiles fl tiles st)"

section \<open>Concrete sources used in the examples\<close>

definition tile_13_1_1 :: tile_rec where
  "tile_13_1_1 = \<lparr>rec_zoom_level = 13, rec_tile_column = 1, rec_tile_row = 1, rec_tile_data = ''a''\<rparr>"

definition tile_14_1_1 :: tile_rec where
  "tile_14_1_1 = \<lparr>rec_zoom_level = 14, rec_tile_column = 1, rec_tile_row = 1, rec_tile_data = ''b''\<rparr>"

definition never :: "nat \<Rightarrow> bool" where
  "never k = False"

definition two_zoom_env :: archive_env where
  "two_zoom_env = store_env [tile_13_1_1, tile_14_1_1] [] never"

definition ready_source :: MBTilesSource where
  "ready_source = set_progress_handler new_MBTilesSource"

definition unreachable_env :: archive_env where
  "unreachable_env = \<lparr>cancel_req = never, can_connect = False,
                        execute = store_execute [tile_14_1_1] []\<rparr>"

definition ready_server :: ServerSource where
  "ready_server = set_progress_handler (new_ServerSource ''http://host/tiles.json'' ''http://host/{z}/{x}/{y}.pbf'')"

definition grid3 :: "(int \<times> int) list" where
  "grid3 = [(0, 0), (1, 0), (2, 0)]"

definition grid6 :: "(int \<times> int) list" where
  "grid6 = [(0, 0), (1, 0), (2, 0), (3, 0), (4, 0), (5, 0)]"

text \<open>A codec that decompresses every payload and decodes only the payload \<open>''good''\<close>,
  and a tile with one point feature that has a subclass but no class.\<close>

definition orphan_feature :: RawFeature where
  "orphan_feature = \<lparr>raw_type = 1, raw_geometry = CList [CList [CInt 0, CInt 0]],
                      raw_properties = [(''subclass'', PyStr ''forest'')]\<rparr>"

definition wood_feature :: RawFeature where
  "wood_feature = \<lparr>raw_type = 1, raw_geometry = CList [CList [CInt 0, CInt 0]],
                    raw_properties = [(''class'', PyStr ''wood'')]\<rparr>"

definition picky_codec :: codec where
  "picky_codec = \<lparr>decompress = (\<lambda>data. Some data),
                   mvt_decode = (\<lambda>content. if content = ''good''
                                   then Some [(''landcover'', [wood_feature])] else None)\<rparr>"

definition tile_0_0_0 :: VectorTile where
  "tile_0_0_0 = \<lparr>scheme = PyStr ''tms'', zoom_level = Some 0, column = 0, row = 0\<rparr>"

definition orphan_tile :: DecodedTile where
  "orphan_tile = VectorTile.extend tile_0_0_0
                   (DecodedTile.fields (Some [(''landcover'', [orphan_feature])]))"

definition tile_14_2_1 :: tile_rec where
  "tile_14_2_1 = \<lparr>rec_zoom_level = 14, rec_tile_column = 2, rec_tile_row = 1, rec_tile_data = ''c''\<rparr>"

definition three_tile_env :: archive_env where
  "three_tile_env = store_env [tile_13_1_1, tile_14_1_1, tile_14_2_1] [] never"

definition one_tile_env :: archive_env where
  "one_tile_env = store_env [tile_14_1_1] [] never"


text \<open>
  An instance of the arithmetic in the real numbers, with truncation toward zero as
  \<open>int()\<close> does it. \<open>TileBounds\<close> is modelled from the spec, the class GlobalMercator is
  not among the sources: the standard bounds of a tile of the spherical mercator grid,
  whose world extent reaches from \<open>- origin_shift\<close> to \<open>origin_shift\<close> on both axes and
  is halved with every zoom level.
\<close>

definition origin_shift :: real where
  "origin_shift = 20037508.342789244"

definition mercator_bounds :: "int \<Rightarrow> int \<Rightarrow> int \<Rightarrow> real \<times> real \<times> real \<times> real" where
  "mercator_bounds tx ty zoom =
     (let size = 2 * origin_shift / 2 ^ nat zoom
      in (of_int tx * size - origin_shift, of_int ty * size - origin_shift,
          of_int (tx + 1) * size - origin_shift, of_int (ty + 1) * size - origin_shift))"

definition real_trunc :: "real \<Rightarrow> int" where
  "real_trunc x = (if 0 \<le> x then \<lfloor>x\<rfloor> else \<lceil>x\<rceil>)"

definition real_ops :: "real float_ops" where
  "real_ops = \<lparr>TileBounds = mercator_bounds, f_add = (\<lambda>x y. x + y), f_sub = (\<lambda>x y. x - y),
               f_mul = (\<lambda>x y. x * y), f_div = (\<lambda>x y. x / y),
               f_of_int = of_int, f_trunc = real_trunc\<rparr>"

section \<open>Properties of the archive source\<close>

lemma get_from_db_base:
  "loaded_tiles (snd (get_from_db env q s)) = loaded_tiles s"
  "cancelling (snd (get_from_db env q s)) = cancelling s"
  "events (snd (get_from_db env q s)) = events s"
  "progress_handler (snd (get_from_db env q s)) = progress_handler s"
  by (simp_all add: get_from_db_def connect_to_db_def Let_def)

lemma get_single_value_base:
  "loaded_tiles (snd (get_single_value env q f s)) = loaded_tiles s"
  "cancelling (snd (get_single_value env q f s)) = cancelling s"
  "events (snd (get_single_value env q f s)) = events s"
  "progress_handler (snd (get_single_value env q f s)) = progress_handler s"
  by (simp_all add: get_single_value_def split_beta get_from_db_base)

lemma get_metadata_value_base:
  "loaded_tiles (snd (get_metadata_value env f d s)) = loaded_tiles s"
  "cancelling (snd (get_metadata_value env f d s)) = cancelling s"
  "events (snd (get_metadata_value env f d s)) = events s"
  "progress_handler (snd (get_metadata_value env f d s)) = progress_handler s"
  by (simp_all add: get_metadata_value_def split_beta Let_def get_single_value_base split: option.splits)

lemma create_tile_base:
  "loaded_tiles (snd (create_tile env r s)) = loaded_tiles s"
  "cancelling (snd (create_tile env r s)) = cancelling s"
  "events (snd (create_tile env r s)) = events s"
  "progress_handler (snd (create_tile env r s)) = progress_handler s"
  by (simp_all add: create_tile_def mb_scheme_def split_beta get_metadata_value_base)

lemma create_tile_fst:
  "column (fst (fst (create_tile env r s))) = rec_tile_column r"
  "row (fst (fst (create_tile env r s))) = rec_tile_row r"
  "zoom_level (fst (fst (create_tile env r s))) = Some (rec_zoom_level r)"
  "snd (fst (create_tile env r s)) = rec_tile_data r"
  by (simp_all add: create_tile_def split_beta)





lemma load_rows_spec:
  "load_rows env zoom fe i rs acc s = (res, s') \<Longrightarrow>
   \<exists>new. res = acc @ new \<and> loaded_tiles s' = loaded_tiles s @ map (key_of zoom) new
      \<and> distinct (map (key_of zoom) new) \<and> set (map (key_of zoom) new) \<inter> set (loaded_tiles s) = {}"
proof (induction rs arbitrary: i acc s res s')
  case Nil
  then show ?case by simp
next
  case (Cons r rs)
  let ?s1 = "poll_cancel env fe i s"
  have l1: "loaded_tiles ?s1 = loaded_tiles s"
    by (simp add: poll_cancel_def log_event_def Let_def)
  show ?case
  proof (cases "cancelling ?s1")
    case True
    with Cons.prems have "res = acc" "s' = ?s1" by (simp_all add: Let_def)
    then show ?thesis using l1 by simp
  next
    case False
    obtain tile data s2 where ct: "create_tile env r ?s1 = ((tile, data), s2)"
      by (metis surj_pair)
    have l2: "loaded_tiles s2 = loaded_tiles s"
      using create_tile_base(1)[of env r ?s1] ct l1 by simp
    show ?thesis
    proof (cases "is_tile_loaded s2 zoom (column tile) (row tile)")
      case True
      with Cons.prems False ct
      have "load_rows env zoom fe (i + 1) rs acc (log_event (Progress (i + 1)) s2) = (res, s')"
        by (simp add: Let_def)
      from Cons.IH[OF this] l2 show ?thesis by (simp add: log_event_def)
    next
      case nl: False
      with Cons.prems False ct
      have "load_rows env zoom fe (i + 1) rs (acc @ [(tile, data)])
              (log_event (Progress (i + 1)) (add_loaded_tile zoom (column tile) (row tile) s2)) = (res, s')"
        by (simp add: Let_def)
      from Cons.IH[OF this] obtain new where
        n: "res = (acc @ [(tile, data)]) @ new"
           "loaded_tiles s' = (loaded_tiles s @ [(zoom, column tile, row tile)]) @ map (key_of zoom) new"
           "distinct (map (key_of zoom) new)"
           "set (map (key_of zoom) new) \<inter> set (loaded_tiles s @ [(zoom, column tile, row tile)]) = {}"
        using l2 by (auto simp add: log_event_def add_loaded_tile_def)
      have k: "key_of zoom (tile, data) = (zoom, column tile, row tile)" by (simp add: key_of_def)
      have "(zoom, column tile, row tile) \<notin> set (loaded_tiles s)"
        using nl l2 by (simp add: is_tile_loaded_def)
      then show ?thesis using n k
        by (intro exI[of _ "(tile, data) # new"]) auto
    qed
  qed
qed



lemma load_rows_first:
  "load_rows env zoom fe i rs acc s = (res, s') \<Longrightarrow> td \<in> set (drop (length acc) res) \<Longrightarrow>
   \<exists>pre r post. rs = pre @ r # post \<and> column (fst td) = rec_tile_column r \<and> row (fst td) = rec_tile_row r
      \<and> zoom_level (fst td) = Some (rec_zoom_level r) \<and> snd td = rec_tile_data r
      \<and> (rec_tile_column r, rec_tile_row r) \<notin> (\<lambda>x. (rec_tile_column x, rec_tile_row x)) ` set pre
      \<and> (zoom, rec_tile_column r, rec_tile_row r) \<notin> set (loaded_tiles s)"
proof (induction rs arbitrary: i acc s res s')
  case Nil
  then show ?case by simp
next
  case (Cons r rs)
  let ?s1 = "poll_cancel env fe i s"
  have l1: "loaded_tiles ?s1 = loaded_tiles s"
    by (simp add: poll_cancel_def log_event_def Let_def)
  show ?case
  proof (cases "cancelling ?s1")
    case True
    with Cons.prems show ?thesis by (simp add: Let_def)
  next
    case False
    obtain tile data s2 where ct: "create_tile env r ?s1 = ((tile, data), s2)"
      by (metis surj_pair)
    have l2: "loaded_tiles s2 = loaded_tiles s"
      using create_tile_base(1)[of env r ?s1] ct l1 by simp
    have tf: "column tile = rec_tile_column r" "row tile = rec_tile_row r"
      "zoom_level tile = Some (rec_zoom_level r)" "data = rec_tile_data r"
      using create_tile_fst[of env r ?s1] ct by simp_all
    show ?thesis
    proof (cases "is_tile_loaded s2 zoom (column tile) (row tile)")
      case True
      with Cons.prems False ct
      have e: "load_rows env zoom fe (i + 1) rs acc (log_event (Progress (i + 1)) s2) = (res, s')"
        by (simp add: Let_def)
      from Cons.IH[OF e Cons.prems(2)] obtain pre r' post where
        p: "rs = pre @ r' # post" "column (fst td) = rec_tile_column r'" "row (fst td) = rec_tile_row r'"
          "zoom_level (fst td) = Some (rec_zoom_level r')" "snd td = rec_tile_data r'"
          "(rec_tile_column r', rec_tile_row r') \<notin> (\<lambda>x. (rec_tile_column x, rec_tile_row x)) ` set pre"
          "(zoom, rec_tile_column r', rec_tile_row r') \<notin> set (loaded_tiles (log_event (Progress (i + 1)) s2))"
        by blast
      have "(rec_tile_column r', rec_tile_row r') \<noteq> (rec_tile_column r, rec_tile_row r)"
        using p(7) True l2 tf by (auto simp add: log_event_def is_tile_loaded_def)
      then show ?thesis using p l2
        by (intro exI[of _ "r # pre"] exI[of _ r'] exI[of _ post]) (auto simp add: log_event_def)
    next
      case nl: False
      with Cons.prems False ct
      have e: "load_rows env zoom fe (i + 1) rs (acc @ [(tile, data)])
              (log_event (Progress (i + 1)) (add_loaded_tile zoom (column tile) (row tile) s2)) = (res, s')"
        by (simp add: Let_def)
      from load_rows_spec[OF e] obtain new where n: "res = (acc @ [(tile, data)]) @ new" by blast
      then have d: "drop (length acc) res = (tile, data) # new" by simp
      show ?thesis
      proof (cases "td \<in> set new")
        case True
        then have "td \<in> set (drop (length (acc @ [(tile, data)])) res)" using n by simp
        from Cons.IH[OF e this] obtain pre r' post where
          p: "rs = pre @ r' # post" "column (fst td) = rec_tile_column r'" "row (fst td) = rec_tile_row r'"
          "zoom_level (fst td) = Some (rec_zoom_level r')" "snd td = rec_tile_data r'"
          "(rec_tile_column r', rec_tile_row r') \<notin> (\<lambda>x. (rec_tile_column x, rec_tile_row x)) ` set pre"
          "(zoom, rec_tile_column r', rec_tile_row r') \<notin> set (loaded_tiles (log_event (Progress (i + 1))
               (add_loaded_tile zoom (column tile) (row tile) s2)))"
          by blast
        have "(rec_tile_column r', rec_tile_row r') \<noteq> (rec_tile_column r, rec_tile_row r)"
          using p(7) l2 tf by (auto simp add: log_event_def add_loaded_tile_def)
        then show ?thesis using p l2
          by (intro exI[of _ "r # pre"] exI[of _ r'] exI[of _ post])
             (auto simp add: log_event_def add_loaded_tile_def)
      next
        case False
        then have "td = (tile, data)" using Cons.prems(2) d by simp
        then show ?thesis using tf nl l2
          by (intro exI[of _ "[]"] exI[of _ r] exI[of _ rs]) (auto simp add: is_tile_loaded_def)
      qed
    qed
  qed
qed

lemma load_rows_live:
  "load_rows env zoom fe i rs acc s = (res, s') \<Longrightarrow> \<forall>k. \<not> cancel_req env k \<Longrightarrow> \<not> cancelling s \<Longrightarrow>
   rs = pre @ r # post \<Longrightarrow>
   (rec_tile_column r, rec_tile_row r) \<notin> (\<lambda>x. (rec_tile_column x, rec_tile_row x)) ` set pre \<Longrightarrow>
   (zoom, rec_tile_column r, rec_tile_row r) \<notin> set (loaded_tiles s) \<Longrightarrow>
   \<exists>td \<in> set (drop (length acc) res). column (fst td) = rec_tile_column r \<and> row (fst td) = rec_tile_row r
      \<and> zoom_level (fst td) = Some (rec_zoom_level r) \<and> snd td = rec_tile_data r"
proof (induction pre arbitrary: i rs acc s res s')
  case Nil
  let ?s1 = "poll_cancel env fe i s"
  have l1: "loaded_tiles ?s1 = loaded_tiles s"
    by (simp add: poll_cancel_def log_event_def Let_def)
  have n1: "\<not> cancelling ?s1" using Nil.prems(2,3) by (simp add: poll_cancel_def log_event_def Let_def)
  obtain tile data s2 where ct: "create_tile env r ?s1 = ((tile, data), s2)"
    by (metis surj_pair)
  have l2: "loaded_tiles s2 = loaded_tiles s"
    using create_tile_base(1)[of env r ?s1] ct l1 by simp
  have tf: "column tile = rec_tile_column r" "row tile = rec_tile_row r"
    "zoom_level tile = Some (rec_zoom_level r)" "data = rec_tile_data r"
    using create_tile_fst[of env r ?s1] ct by simp_all
  have nl: "\<not> is_tile_loaded s2 zoom (column tile) (row tile)"
    using Nil.prems(6) l2 tf by (simp add: is_tile_loaded_def)
  from Nil.prems(1,4) n1 ct nl
  have e: "load_rows env zoom fe (i + 1) post (acc @ [(tile, data)])
            (log_event (Progress (i + 1)) (add_loaded_tile zoom (column tile) (row tile) s2)) = (res, s')"
    by (simp add: Let_def)
  from load_rows_spec[OF e] obtain new where n: "res = (acc @ [(tile, data)]) @ new" by blast
  then have "(tile, data) \<in> set (drop (length acc) res)" by simp
  then show ?case using tf by (intro bexI[of _ "(tile, data)"]) simp_all
next
  case (Cons x pre)
  let ?s1 = "poll_cancel env fe i s"
  let ?rest = "pre @ r # post"
  have rs: "rs = x # ?rest" using Cons.prems(4) by simp
  have l1: "loaded_tiles ?s1 = loaded_tiles s"
    by (simp add: poll_cancel_def log_event_def Let_def)
  have n1: "\<not> cancelling ?s1" using Cons.prems(2,3) by (simp add: poll_cancel_def log_event_def Let_def)
  obtain tile data s2 where ct: "create_tile env x ?s1 = ((tile, data), s2)"
    by (metis surj_pair)
  have l2: "loaded_tiles s2 = loaded_tiles s"
    using create_tile_base(1)[of env x ?s1] ct l1 by simp
  have n2: "\<not> cancelling s2"
    using create_tile_base(2)[of env x ?s1] ct n1 by simp
  have tf: "column tile = rec_tile_column x" "row tile = rec_tile_row x"
    using create_tile_fst[of env x ?s1] ct by simp_all
  have ne: "(rec_tile_column r, rec_tile_row r) \<noteq> (rec_tile_column x, rec_tile_row x)"
    and fr: "(rec_tile_column r, rec_tile_row r) \<notin> (\<lambda>x. (rec_tile_column x, rec_tile_row x)) ` set pre"
    using Cons.prems(5) by auto
  show ?case
  proof (cases "is_tile_loaded s2 zoom (column tile) (row tile)")
    case True
    with Cons.prems(1) rs n1 ct
    have e: "load_rows env zoom fe (i + 1) ?rest acc (log_event (Progress (i + 1)) s2) = (res, s')"
      by (simp add: Let_def)
    have c3: "\<not> cancelling (log_event (Progress (i + 1)) s2)" using n2 by (simp add: log_event_def)
    have l3: "(zoom, rec_tile_column r, rec_tile_row r) \<notin> set (loaded_tiles (log_event (Progress (i + 1)) s2))"
      using Cons.prems(6) l2 by (simp add: log_event_def)
    from Cons.IH[OF e Cons.prems(2) c3 refl fr l3] show ?thesis .
  next
    case False
    let ?s3 = "log_event (Progress (i + 1)) (add_loaded_tile zoom (column tile) (row tile) s2)"
    from False Cons.prems(1) rs n1 ct
    have e: "load_rows env zoom fe (i + 1) ?rest (acc @ [(tile, data)]) ?s3 = (res, s')"
      by (simp add: Let_def)
    have c3: "\<not> cancelling ?s3" using n2 by (simp add: log_event_def add_loaded_tile_def)
    have l3: "(zoom, rec_tile_column r, rec_tile_row r) \<notin> set (loaded_tiles ?s3)"
      using Cons.prems(6) l2 ne tf by (auto simp add: log_event_def add_loaded_tile_def)
    from Cons.IH[OF e Cons.prems(2) c3 refl fr l3]
    obtain td where td: "td \<in> set (drop (length (acc @ [(tile, data)])) res)"
      "column (fst td) = rec_tile_column r \<and> row (fst td) = rec_tile_row r
        \<and> zoom_level (fst td) = Some (rec_zoom_level r) \<and> snd td = rec_tile_data r" by blast
    have "set (drop (length (acc @ [(tile, data)])) res) \<subseteq> set (drop (length acc) res)"
      by (rule set_drop_subset_set_drop) simp
    with td show ?thesis by blast
  qed
qed

lemma mb_load_tiles_spec:
  assumes "mb_load_tiles env zoom bnds max_tiles fe s = (Inr res, s')"
  shows "loaded_tiles s' = loaded_tiles s @ map (key_of zoom) res
         \<and> distinct (map (key_of zoom) res)
         \<and> set (map (key_of zoom) res) \<inter> set (loaded_tiles s) = {}"
proof -
  let ?s0 = "s\<lparr>cancelling := False\<rparr>"
  obtain rows s1 where g: "get_from_db env (sql_command zoom bnds max_tiles) ?s0 = (rows, s1)"
    by (metis surj_pair)
  have l1: "loaded_tiles s1 = loaded_tiles s"
    using get_from_db_base(1)[of env "sql_command zoom bnds max_tiles" ?s0] g by simp
  show ?thesis
  proof (cases rows)
    case None
    with assms g l1 show ?thesis by (simp add: mb_load_tiles_def)
  next
    case (Some rws)
    show ?thesis
    proof (cases rws)
      case (ValueRows vs)
      with assms g l1 Some show ?thesis
        by (cases vs)
           (auto simp add: mb_load_tiles_def Let_def poll_cancel_def log_event_def split: if_splits)
    next
      case (TileRows rs)
      show ?thesis
      proof (cases rs)
        case Nil
        with assms g l1 Some TileRows show ?thesis by (simp add: mb_load_tiles_def)
      next
        case (Cons r rs')
        with assms g Some TileRows
        have "load_rows env zoom fe 0 (r # rs') [] (log_event (MaxProgress (length (r # rs'))) s1) = (res, s')"
          by (auto simp add: mb_load_tiles_def split: if_splits prod.splits)
        from load_rows_spec[OF this] l1 show ?thesis by (auto simp add: log_event_def)
      qed
    qed
  qed
qed

lemma dedup_two_calls:
  assumes a: "loaded_tiles s1 = loaded_tiles s @ map (key_of zoom) res1"
    and b: "distinct (map (key_of zoom) res1)"
    and c: "set (loaded_tiles s1) \<subseteq> set (loaded_tiles t)"
    and d: "distinct (map (key_of zoom) res2)"
    and e: "set (map (key_of zoom) res2) \<inter> set (loaded_tiles t) = {}"
  shows "distinct (map (\<lambda>td. (column (fst td), row (fst td))) (res1 @ res2))"
proof -
  have "set (map (key_of zoom) res1) \<inter> set (map (key_of zoom) res2) = {}"
    using a c e by auto
  with b d have "distinct (map (key_of zoom) (res1 @ res2))" by simp
  moreover have "map (key_of zoom) (res1 @ res2)
      = map (\<lambda>p. (zoom, p)) (map (\<lambda>td. (column (fst td), row (fst td))) (res1 @ res2))"
    by (simp add: key_of_def)
  ultimately show ?thesis by (metis distinct_map)
qed

text \<open>
  C8. When the connection cannot be opened or the query of \<open>load_tiles\<close> fails, the
  archive source raises nothing: the call returns the empty list, records no tile as
  loaded and reports no progress.
\<close>

theorem mb_load_tiles_query_failure:
  assumes "(\<not> conn s \<and> \<not> can_connect env) \<or> execute env (sql_command zoom bnds max_tiles) = None"
  shows "fst (mb_load_tiles env zoom bnds max_tiles for_each s) = Inr []
         \<and> loaded_tiles (snd (mb_load_tiles env zoom bnds max_tiles for_each s)) = loaded_tiles s
         \<and> events (snd (mb_load_tiles env zoom bnds max_tiles for_each s)) = events s"
  using assms
  by (auto simp add: mb_load_tiles_def get_from_db_def connect_to_db_def Let_def)

theorem mb_load_tiles_query_failure_witness:
  "\<not> conn ready_source \<and> \<not> can_connect unreachable_env
   \<and> fst (mb_load_tiles unreachable_env (Some 14) None None False ready_source) = Inr []"
proof -
  have h: "\<not> conn ready_source \<and> \<not> can_connect unreachable_env"
    by (simp add: ready_source_def set_progress_handler_def new_MBTilesSource_def unreachable_env_def)
  from mb_load_tiles_query_failure[of ready_source unreachable_env "Some 14" None None False] h
  show ?thesis by blast
qed

text \<open>
  C10. The archive source records a delivered tile under the \<open>zoom_level\<close> argument of
  the call, not under the zoom level of the row. When the query is answered with rows
  and a progress handler is set (or the answer is empty), the call returns a list, of
  which: no two tiles share column and row, whatever their zoom levels are; every
  returned tile comes from a row before which no row of the answer has the same column
  and row; and, when cancellation is never requested, every row whose key of argument,
  column and row is not yet recorded, and before which no row of the answer has the same
  column and row, is returned. So of the rows that share column and row the first, and
  only the first, is returned.
\<close>

theorem mb_load_tiles_key_from_argument:
  assumes "fst (get_from_db env (sql_command zoom bnds max_tiles) (s\<lparr>cancelling := False\<rparr>))
           = Some (TileRows rows)"
    and "progress_handler s \<or> rows = []"
  shows "\<exists>res s'. mb_load_tiles env zoom bnds max_tiles for_each s = (Inr res, s')
         \<and> loaded_tiles s' = loaded_tiles s @ map (\<lambda>td. (zoom, column (fst td), row (fst td))) res
         \<and> distinct (map (\<lambda>td. (column (fst td), row (fst td))) res)
         \<and> (\<forall>td \<in> set res. \<exists>pre r post. rows = pre @ r # post
               \<and> column (fst td) = rec_tile_column r \<and> row (fst td) = rec_tile_row r
               \<and> zoom_level (fst td) = Some (rec_zoom_level r) \<and> snd td = rec_tile_data r
               \<and> (rec_tile_column r, rec_tile_row r)
                    \<notin> (\<lambda>x. (rec_tile_column x, rec_tile_row x)) ` set pre)
         \<and> ((\<forall>k. \<not> cancel_req env k) \<longrightarrow>
              (\<forall>pre r post. rows = pre @ r # post
                 \<and> (rec_tile_column r, rec_tile_row r)
                      \<notin> (\<lambda>x. (rec_tile_column x, rec_tile_row x)) ` set pre
                 \<and> (zoom, rec_tile_column r, rec_tile_row r) \<notin> set (loaded_tiles s)
                 \<longrightarrow> (\<exists>td \<in> set res. column (fst td) = rec_tile_column r \<and> row (fst td) = rec_tile_row r
                        \<and> zoom_level (fst td) = Some (rec_zoom_level r) \<and> snd td = rec_tile_data r)))"
proof -
  let ?g = "get_from_db env (sql_command zoom bnds max_tiles) (s\<lparr>cancelling := False\<rparr>)"
  let ?s1 = "snd ?g"
  let ?s2 = "log_event (MaxProgress (length rows)) ?s1"
  have ph: "progress_handler ?s1 = progress_handler s"
    using get_from_db_base(4)[of env "sql_command zoom bnds max_tiles" "s\<lparr>cancelling := False\<rparr>"]
    by simp
  obtain res s' where eq: "mb_load_tiles env zoom bnds max_tiles for_each s = (Inr res, s')"
  proof (cases rows)
    case Nil
    with assms(1) have "mb_load_tiles env zoom bnds max_tiles for_each s = (Inr [], ?s1)"
      by (simp add: mb_load_tiles_def split_beta)
    then show ?thesis by (rule that)
  next
    case (Cons r rs)
    with assms(2) ph have "progress_handler ?s1" by simp
    with assms(1) Cons
    have "mb_load_tiles env zoom bnds max_tiles for_each s
            = (Inr (fst (load_rows env zoom for_each 0 rows [] ?s2)),
               snd (load_rows env zoom for_each 0 rows [] ?s2))"
      by (simp add: mb_load_tiles_def split_beta Let_def del: load_rows.simps)
    then show ?thesis by (rule that)
  qed
  from mb_load_tiles_spec[OF eq]
  have sp: "loaded_tiles s' = loaded_tiles s @ map (key_of zoom) res"
    "distinct (map (key_of zoom) res)" by simp_all
  have k: "map (key_of zoom) res = map (\<lambda>p. (zoom, p)) (map (\<lambda>td. (column (fst td), row (fst td))) res)"
    by (simp add: key_of_def)
  have d: "distinct (map (\<lambda>td. (column (fst td), row (fst td))) res)"
    using sp(2) unfolding k by (metis distinct_map)
  have l: "loaded_tiles s' = loaded_tiles s @ map (\<lambda>td. (zoom, column (fst td), row (fst td))) res"
    using sp(1) by (simp add: key_of_def)
  have run: "load_rows env zoom for_each 0 rows [] ?s2 = (res, s')" if "rows \<noteq> []"
  proof -
    from that obtain r rs where "rows = r # rs" by (cases rows) auto
    with assms(1) eq show ?thesis
      by (cases "progress_handler ?s1")
         (simp_all add: mb_load_tiles_def split_beta Let_def prod_eq_iff del: load_rows.simps)
  qed
  have f: "\<exists>pre r post. rows = pre @ r # post
               \<and> column (fst td) = rec_tile_column r \<and> row (fst td) = rec_tile_row r
               \<and> zoom_level (fst td) = Some (rec_zoom_level r) \<and> snd td = rec_tile_data r
               \<and> (rec_tile_column r, rec_tile_row r)
                    \<notin> (\<lambda>x. (rec_tile_column x, rec_tile_row x)) ` set pre"
    if td: "td \<in> set res" for td
  proof (cases rows)
    case Nil
    with assms(1) eq have "res = []"
      by (auto simp add: mb_load_tiles_def split_beta split: if_splits)
    with td show ?thesis by simp
  next
    case (Cons r rs)
    then have "rows \<noteq> []" by simp
    from load_rows_first[OF run[OF this], of td] td show ?thesis by auto
  qed
  have g: "\<exists>td \<in> set res. column (fst td) = rec_tile_column r \<and> row (fst td) = rec_tile_row r
                        \<and> zoom_level (fst td) = Some (rec_zoom_level r) \<and> snd td = rec_tile_data r"
    if nc: "\<forall>k. \<not> cancel_req env k" and dec: "rows = pre @ r # post"
      and fr: "(rec_tile_column r, rec_tile_row r)
                      \<notin> (\<lambda>x. (rec_tile_column x, rec_tile_row x)) ` set pre"
      and nl: "(zoom, rec_tile_column r, rec_tile_row r) \<notin> set (loaded_tiles s)"
    for pre r post
  proof -
    from dec have ne: "rows \<noteq> []" by simp
    have c2: "\<not> cancelling ?s2"
      using get_from_db_base(2)[of env "sql_command zoom bnds max_tiles" "s\<lparr>cancelling := False\<rparr>"]
      by (simp add: log_event_def)
    have l2: "(zoom, rec_tile_column r, rec_tile_row r) \<notin> set (loaded_tiles ?s2)"
      using get_from_db_base(1)[of env "sql_command zoom bnds max_tiles" "s\<lparr>cancelling := False\<rparr>"] nl
      by (simp add: log_event_def)
    from load_rows_live[OF run[OF ne] nc c2 dec fr l2] show ?thesis by simp
  qed
  from eq l d f g show ?thesis by blast
qed

theorem mb_load_tiles_key_from_argument_witness:
  "fst (get_from_db two_zoom_env (sql_command None None None) (ready_source\<lparr>cancelling := False\<rparr>))
     = Some (TileRows [tile_13_1_1, tile_14_1_1])
   \<and> progress_handler ready_source
   \<and> (\<forall>k. \<not> cancel_req two_zoom_env k)
   \<and> fst (mb_load_tiles two_zoom_env None None None False ready_source)
     = Inr [(\<lparr>scheme = PyStr ''tms'', zoom_level = Some 13, column = 1, row = 1\<rparr>, ''a'')]
   \<and> loaded_tiles (snd (mb_load_tiles two_zoom_env None None None False ready_source)) = [(None, 1, 1)]
   \<and> (\<exists>td \<in> set (projr (fst (mb_load_tiles two_zoom_env None None None False ready_source))).
         column (fst td) = 1 \<and> row (fst td) = 1 \<and> zoom_level (fst td) = Some 13 \<and> snd td = ''a'')"
proof -
  let ?r = "mb_load_tiles two_zoom_env None None None False ready_source"
  let ?res = "[(\<lparr>scheme = PyStr ''tms'', zoom_level = Some 13, column = 1, row = 1\<rparr>, ''a'')]"
  have rows: "fst (get_from_db two_zoom_env (sql_command None None None) (ready_source\<lparr>cancelling := False\<rparr>))
     = Some (TileRows [tile_13_1_1, tile_14_1_1])"
    by code_simp
  have ph: "progress_handler ready_source"
    by (simp add: ready_source_def set_progress_handler_def new_MBTilesSource_def)
  have l0: "loaded_tiles ready_source = []"
    by (simp add: ready_source_def set_progress_handler_def new_MBTilesSource_def)
  have nc: "\<forall>k. \<not> cancel_req two_zoom_env k"
    by (simp add: two_zoom_env_def store_env_def never_def)
  have run: "fst ?r = Inr ?res"
    by code_simp
  from mb_load_tiles_key_from_argument[OF rows disjI1[OF ph], of False]
  obtain res s' where th: "?r = (Inr res, s')"
    "loaded_tiles s' = loaded_tiles ready_source @ map (\<lambda>td. (None, column (fst td), row (fst td))) res"
    "(\<forall>k. \<not> cancel_req two_zoom_env k) \<longrightarrow>
       (\<forall>pre r post. [tile_13_1_1, tile_14_1_1] = pre @ r # post
          \<and> (rec_tile_column r, rec_tile_row r)
               \<notin> (\<lambda>x. (rec_tile_column x, rec_tile_row x)) ` set pre
          \<and> (None, rec_tile_column r, rec_tile_row r) \<notin> set (loaded_tiles ready_source)
          \<longrightarrow> (\<exists>td \<in> set res. column (fst td) = rec_tile_column r \<and> row (fst td) = rec_tile_row r
                 \<and> zoom_level (fst td) = Some (rec_zoom_level r) \<and> snd td = rec_tile_data r))"
    by blast
  from th(1) run have r: "res = ?res" by simp
  from th(1) have s: "s' = snd ?r" by simp
  from th(2) l0 have a: "loaded_tiles (snd ?r) = [(None, 1, 1)]" unfolding r s by simp
  from th(3)[THEN mp, OF nc, rule_format, of "[]" tile_13_1_1 "[tile_14_1_1]"] l0
  have "\<exists>td \<in> set res. column (fst td) = 1 \<and> row (fst td) = 1
         \<and> zoom_level (fst td) = Some 13 \<and> snd td = ''a''"
    by (simp add: tile_13_1_1_def)
  moreover have "projr (fst ?r) = res" using th(1) by simp
  ultimately have b: "\<exists>td \<in> set (projr (fst ?r)).
         column (fst td) = 1 \<and> row (fst td) = 1 \<and> zoom_level (fst td) = Some 13 \<and> snd td = ''a''"
    by simp
  from rows ph nc run a b show ?thesis by blast
qed


section \<open>Runs in which the code departs from the specification\<close>

text \<open>
  C1. An archive that holds the tile 14/1/1: the probe of \<open>is_mapbox_vector_tile\<close>, which
  is \<open>load_tiles(max_tiles=1, zoom_level=None)\<close>, returns the tile and records it under
  the key \<open>(None, 1, 1)\<close>, whose zoom level is the argument of the call while column and
  row are those of the tile; the call \<open>load_tiles(zoom_level=14)\<close> on the same instance
  then looks for the key \<open>(14, 1, 1)\<close>, does not find it, and returns the tile 14/1/1 a
  second time.
\<close>

theorem archive_tile_delivered_twice:
  "fst (mb_load_tiles one_tile_env None None (Some 1) False ready_source)
     = Inr [(\<lparr>scheme = PyStr ''tms'', zoom_level = Some 14, column = 1, row = 1\<rparr>, ''b'')]
   \<and> loaded_tiles (snd (mb_load_tiles one_tile_env None None (Some 1) False ready_source))
     = [(None, 1, 1)]
   \<and> fst (mb_load_tiles one_tile_env (Some 14) None None False
            (snd (mb_load_tiles one_tile_env None None (Some 1) False ready_source)))
     = Inr [(\<lparr>scheme = PyStr ''tms'', zoom_level = Some 14, column = 1, row = 1\<rparr>, ''b'')]
   \<and> loaded_tiles (snd (mb_load_tiles one_tile_env (Some 14) None None False
            (snd (mb_load_tiles one_tile_env None None (Some 1) False ready_source))))
     = [(None, 1, 1), (Some 14, 1, 1)]
   \<and> \<not> distinct (map fst
          ([(\<lparr>scheme = PyStr ''tms'', zoom_level = Some 14, column = 1, row = 1\<rparr>, ''b'')]
           @ [(\<lparr>scheme = PyStr ''tms'', zoom_level = Some 14, column = 1, row = 1\<rparr>, ''b'')]))"
  by code_simp

text \<open>
  C2. Two calls of the remote \<open>load_tiles\<close> with \<open>max_tiles = 1\<close> on a grid of three
  tiles: the first call returns one tile; in the second call the first candidate is
  already loaded, the \<open>continue\<close> skips the test of the cap at index 0, the test never
  succeeds afterwards, and the call returns two tiles.
\<close>

theorem srv_load_tiles_exceeds_max_tiles:
  "fst (srv_load_tiles (grid_env grid3 never) (Some 3) None (Some 1) False ready_server)
     = Inr [(\<lparr>scheme = PyStr ''xyz'', zoom_level = Some 3, column = 0, row = 0\<rparr>, ''http://host/3/0/0.pbf'')]
   \<and> fst (srv_load_tiles (grid_env grid3 never) (Some 3) None (Some 1) False
           (snd (srv_load_tiles (grid_env grid3 never) (Some 3) None (Some 1) False ready_server)))
     = Inr [(\<lparr>scheme = PyStr ''xyz'', zoom_level = Some 3, column = 1, row = 0\<rparr>, ''http://host/3/1/0.pbf''),
            (\<lparr>scheme = PyStr ''xyz'', zoom_level = Some 3, column = 2, row = 0\<rparr>, ''http://host/3/2/0.pbf'')]"
  by code_simp

text \<open>
  C9. A remote \<open>load_tiles\<close> of six tiles with a per-item callback: the callback precedes
  every progress report, the first five fetches are reported as 1 to 5, and the sixth,
  the first of the second page, is reported as 26, since \<open>page_nr\<close> is already 5 when it
  is multiplied by the page size.
\<close>

theorem srv_progress_jumps_at_second_page:
  "events (snd (srv_load_tiles (grid_env grid6 never) (Some 3) None None True ready_server))
     = [Message 6, ForEach, Progress 1, ForEach, Progress 2, ForEach, Progress 3,
        ForEach, Progress 4, ForEach, Progress 5, ForEach, Progress 26]"
  by code_simp

text \<open>
  C7. An archive with tiles at zoom 13 and 14 and no \<open>minzoom\<close> or \<open>maxzoom\<close> in its
  metadata: the text of the fallback query has no blank between its clauses, the store
  rejects it, the exception is swallowed, and \<open>min_zoom()\<close> and \<open>max_zoom()\<close> return
  \<open>None\<close>. The same query with the blanks in place is answered.
\<close>

theorem zoom_fallback_query_is_rejected:
  "zoom_sql False = ''select zoom_level as '' @ [quote] @ ''zoom_level'' @ [quote]
                     @ ''from tilesorder by zoom_level asclimit 1''
   \<and> execute two_zoom_env (zoom_sql False) = None
   \<and> execute two_zoom_env (''select zoom_level as '' @ [quote] @ ''zoom_level'' @ [quote]
                     @ '' from tiles order by zoom_level asc limit 1'') = Some (ValueRows [Some (PyInt 13)])
   \<and> fst (min_zoom two_zoom_env new_MBTilesSource) = Inr None
   \<and> fst (max_zoom two_zoom_env new_MBTilesSource) = Inr None"
  by code_simp

text \<open>
  C4. A point feature of layer \<open>landcover\<close> whose properties hold a subclass but no
  class: no exception is raised, and the feature is appended to the collection of the
  path \<open>landcover\<close>.
\<close>

theorem orphan_subclass_is_aggregated:
  "\<exists>data. write_features fl orphan_tile Map.empty = (Inr (), [''landcover'' \<mapsto> [data]])
          \<and> properties data = [(''subclass'', PyStr ''forest'')] \<and> geo_type data = Point"
proof -
  have "\<exists>c. write_features fl orphan_tile Map.empty
          = (Inr (), [''landcover'' \<mapsto> [\<lparr>geo_type = Point, coordinates = c,
                                             properties = [(''subclass'', PyStr ''forest'')]\<rparr>]])"
    by (simp add: write_features_def orphan_tile_def VectorTile.extend_def DecodedTile.fields_def
          orphan_feature_def write_feature_def create_geojson_feature_def geo_types_def
          calculate_geometry_def tile_0_0_0_def feature_path_of_def Let_def split_beta
          append_result_def)
       (rule exI, rule refl)
  then obtain c where "write_features fl orphan_tile Map.empty
          = (Inr (), [''landcover'' \<mapsto> [\<lparr>geo_type = Point, coordinates = c,
                                             properties = [(''subclass'', PyStr ''forest'')]\<rparr>]])" ..
  then show ?thesis
    by (intro exI[of _ "\<lparr>geo_type = Point, coordinates = c,
                         properties = [(''subclass'', PyStr ''forest'')]\<rparr>"]) simp
qed

text \<open>
  C6. A run over two tiles of which the first has a payload that decompresses but does
  not decode: \<open>decode_all_tiles\<close> keeps the tile with \<open>decoded_data = None\<close>, the loop of
  \<open>write_features\<close> over it raises TypeError, and the run ends there with nothing in
  the store; the features of the second tile are never aggregated.
\<close>

theorem undecodable_tile_aborts_the_run:
  "decode_binary_tile_data picky_codec ''bad'' = None
   \<and> process_tiles fl (decode_all_tiles picky_codec
        [(tile_0_0_0, ''bad''), (tile_0_0_0\<lparr>column := 1\<rparr>, ''good'')]) Map.empty
     = (Inl TypeError, Map.empty)
   \<and> fst (process_tiles fl (decode_all_tiles picky_codec [(tile_0_0_0\<lparr>column := 1\<rparr>, ''good'')]) Map.empty)
     = Inr ()"
  by (simp add: decode_all_tiles_def picky_codec_def decode_binary_tile_data_def write_features_def
        tile_0_0_0_def VectorTile.extend_def DecodedTile.fields_def wood_feature_def
        write_feature_def create_geojson_feature_def geo_types_def calculate_geometry_def
        feature_path_of_def Let_def split_beta append_result_def)


section \<open>Properties of the remote source\<close>

lemma distinct_mset_subseteq:
  assumes "mset xs \<subseteq># mset ys" "distinct ys"
  shows "distinct xs"
proof -
  have le: "count (mset xs) a \<le> 1" for a
  proof -
    have "count (mset xs) a \<le> count (mset ys) a"
      using assms(1) by (simp add: mset_subset_eq_count)
    also have "\<dots> \<le> 1" using assms(2) by (simp add: distinct_count_atmost_1)
    finally show ?thesis .
  qed
  show ?thesis
    unfolding distinct_count_atmost_1
  proof (intro allI)
    fix a
    show "count (mset xs) a = (if a \<in> set xs then 1 else 0)"
      using le[of a] by (cases "a \<in> set xs") (auto simp add: le_Suc_eq)
  qed
qed

lemma fetched_Nil [simp]: "fetched load [] = []"
  by (simp add: fetched_def List.map_filter_simps)

lemma fetched_Cons:
  "fetched load ((u, col, rw) # us) =
     (case load u of None \<Rightarrow> fetched load us | Some content \<Rightarrow> (content, col, rw) # fetched load us)"
  by (simp add: fetched_def List.map_filter_simps split: option.splits)

lemma fetched_coordinates: "mset (map snd (fetched load us)) \<subseteq># mset (map snd us)"
proof (induction us)
  case Nil
  then show ?case by simp
next
  case (Cons x us)
  obtain u col rw where x: "x = (u, col, rw)" by (cases x) auto
  show ?case
  proof (cases "load u")
    case None
    with Cons x show ?thesis
      by (simp add: fetched_Cons subset_mset.order_trans)
  next
    case (Some content)
    with Cons x show ?thesis by (simp add: fetched_Cons)
  qed
qed

lemma fetched_take_prefix: "prefix (fetched load (take j us)) (fetched load us)"
proof (induction us arbitrary: j)
  case Nil
  then show ?case by simp
next
  case (Cons x us)
  obtain u col rw where x: "x = (u, col, rw)" by (cases x) auto
  show ?case
  proof (cases j)
    case 0
    then show ?thesis by simp
  next
    case (Suc k)
    with Cons[of k] x show ?thesis
      by (cases "load u") (simp_all add: fetched_Cons)
  qed
qed

lemma threads_ok_grid_env: "threads_ok (grid_env grid creq)"
  unfolding threads_ok_def grid_env_def
proof (intro allI impI conjI)
  fix po :: nat and us :: "url_item list" and j
  assume "j \<le> length us"
  show "mset (fetched (load_url \<lparr>cancel_req = creq, get_all_tiles = \<lambda>_. grid, load_url = Some,
            queued = \<lambda>po us j. fetched Some (take j us)\<rparr>) (take j us))
        \<subseteq># mset (queued \<lparr>cancel_req = creq, get_all_tiles = \<lambda>_. grid, load_url = Some,
            queued = \<lambda>po us j. fetched Some (take j us)\<rparr> po us j)"
    by simp
  show "mset (queued \<lparr>cancel_req = creq, get_all_tiles = \<lambda>_. grid, load_url = Some,
            queued = \<lambda>po us j. fetched Some (take j us)\<rparr> po us j)
        \<subseteq># mset (fetched (load_url \<lparr>cancel_req = creq, get_all_tiles = \<lambda>_. grid, load_url = Some,
            queued = \<lambda>po us j. fetched Some (take j us)\<rparr>) us)"
    using fetched_take_prefix[of Some j us] by (auto simp add: prefix_def)
  show "prefix (queued \<lparr>cancel_req = creq, get_all_tiles = \<lambda>_. grid, load_url = Some,
            queued = \<lambda>po us j. fetched Some (take j us)\<rparr> po us j)
          (queued \<lparr>cancel_req = creq, get_all_tiles = \<lambda>_. grid, load_url = Some,
            queued = \<lambda>po us j. fetched Some (take j us)\<rparr> po us (length us))"
    using fetched_take_prefix[of Some j us] by simp
qed

lemma queued_coordinates:
  assumes "threads_ok env" "j \<le> length us"
  shows "mset (map snd (queued env po us j)) \<subseteq># mset (map snd us)"
proof -
  from assms have "mset (queued env po us j) \<subseteq># mset (fetched (load_url env) us)"
    by (simp add: threads_ok_def)
  then have "image_mset snd (mset (queued env po us j)) \<subseteq># image_mset snd (mset (fetched (load_url env) us))"
    by (rule image_mset_subseteq_mono)
  then have "mset (map snd (queued env po us j)) \<subseteq># mset (map snd (fetched (load_url env) us))"
    by simp
  then show ?thesis
    using fetched_coordinates[of "load_url env" us] by (rule subset_mset.order_trans)
qed

lemma poll_cancel_base [simp]:
  "loaded_tiles (poll_cancel env fe k s) = loaded_tiles s"
  "progress_handler (poll_cancel env fe k s) = progress_handler s"
  by (simp_all add: poll_cancel_def log_event_def Let_def)

lemma log_event_base [simp]:
  "loaded_tiles (log_event e s) = loaded_tiles s"
  "cancelling (log_event e s) = cancelling s"
  "progress_handler (log_event e s) = progress_handler s"
  by (simp_all add: log_event_def)

lemma poll_cancel_json [simp]:
  "json_scheme (poll_cancel env fe k s) = json_scheme s"
  "json_tiles (poll_cancel env fe k s) = json_tiles s"
  by (simp_all add: poll_cancel_def log_event_def Let_def)

lemma log_event_json [simp]:
  "json_scheme (log_event e s) = json_scheme s"
  "json_tiles (log_event e s) = json_tiles s"
  by (simp_all add: log_event_def)

lemma join_threads_base:
  "join_threads env fe po tick index us s = (j, t, s') \<Longrightarrow>
     loaded_tiles s' = loaded_tiles s \<and> index \<le> j \<and> j \<le> index + length us"
proof (induction us arbitrary: tick index s)
  case Nil
  then show ?case by simp
next
  case (Cons u us)
  show ?case
  proof (cases "cancelling (poll_cancel env fe tick s)")
    case True
    with Cons.prems show ?thesis by (auto simp add: Let_def)
  next
    case False
    with Cons.prems
    have "join_threads env fe po (tick + 1) (index + 1) us
            (log_event (Progress (po + index + 1)) (poll_cancel env fe tick s)) = (j, t, s')"
      by (simp add: Let_def)
    from Cons.IH[OF this] show ?thesis by simp
  qed
qed


lemma load_urls_async_spec:
  assumes "threads_ok env" "load_urls_async env fe po us tick queue s = (q', t, s')"
  shows "\<exists>extra. q' = queue @ extra \<and> mset (map snd extra) \<subseteq># mset (map snd us)
           \<and> loaded_tiles s' = loaded_tiles s"
proof -
  obtain j t1 s1 where jt: "join_threads env fe po tick 0 us s = (j, t1, s1)"
    by (metis prod_cases3)
  from join_threads_base[OF jt] have b: "loaded_tiles s1 = loaded_tiles s" "j \<le> length us" by simp_all
  from assms(2) jt have "q' = queue @ queued env po us j" "s' = s1"
    by (simp_all add: load_urls_async_def)
  with b queued_coordinates[OF assms(1) b(2), of po] show ?thesis by blast
qed


lemma do_paged_spec:
  "threads_ok env \<Longrightarrow> do_paged env fe ps all_items pn tick queue s = (q', s') \<Longrightarrow>
   \<exists>extra. q' = queue @ extra \<and> mset (map snd extra) \<subseteq># mset (map snd (drop pn all_items))
      \<and> loaded_tiles s' = loaded_tiles s"
proof (induction env fe ps all_items pn tick queue s arbitrary: q' s' rule: do_paged.induct)
  case (1 env fe ps all_items pn tick queue s)
  let ?items = "take ps (drop pn all_items)"
  let ?s1 = "poll_cancel env False tick s"
  show ?case
  proof (cases "cancelling ?s1 \<or> ?items = []")
    case True
    with "1.prems"(2) have "q' = queue" "s' = ?s1"
      by (auto simp add: do_paged.simps[of env fe ps all_items pn tick queue s] Let_def)
    then show ?thesis by simp
  next
    case False
    let ?r = "load_urls_async env fe (pn * ps) ?items (tick + 1) queue ?s1"
    obtain qr tr sr where r: "?r = (qr, tr, sr)" by (metis prod_cases3)
    from load_urls_async_spec[OF "1.prems"(1) r] obtain e1 where
      e1: "qr = queue @ e1" "mset (map snd e1) \<subseteq># mset (map snd ?items)" "loaded_tiles sr = loaded_tiles s"
      by auto
    from "1.prems"(2) False r
    have rec: "do_paged env fe ps all_items (pn + ps) tr qr sr = (q', s')"
      by (simp add: do_paged.simps[of env fe ps all_items pn tick queue s] Let_def)
    from "1.IH"[OF refl refl False refl refl "1.prems"(1)] rec r obtain e2 where
      e2: "q' = qr @ e2" "mset (map snd e2) \<subseteq># mset (map snd (drop (pn + ps) all_items))"
          "loaded_tiles s' = loaded_tiles sr"
      by auto
    have split: "drop pn all_items = ?items @ drop (pn + ps) all_items"
      by (metis add.commute append_take_drop_id drop_drop)
    have "mset (map snd (e1 @ e2)) \<subseteq># mset (map snd ?items) + mset (map snd (drop (pn + ps) all_items))"
      using e1(2) e2(2) by (simp add: subset_mset.add_mono)
    also have "\<dots> = mset (map snd (drop pn all_items))"
      using arg_cong[OF split, of "\<lambda>xs. mset (map snd xs)"] by simp
    finally have "mset (map snd (e1 @ e2)) \<subseteq># mset (map snd (drop pn all_items))" .
    with e1 e2 show ?thesis by (intro exI[of _ "e1 @ e2"]) simp
  qed
qed


lemma drain_queue_spec:
  "drain_queue zoom q acc s = (res, s') \<Longrightarrow>
     res = acc @ map (\<lambda>(content, col, rw).
                        (\<lparr>scheme = json_scheme s, zoom_level = zoom, column = col, row = rw\<rparr>, content)) q
     \<and> loaded_tiles s' = loaded_tiles s @ map (\<lambda>i. (zoom, snd i)) q"
proof (induction q arbitrary: acc s)
  case Nil
  then show ?case by simp
next
  case (Cons x q)
  obtain content col rw where x: "x = (content, col, rw)" by (cases x) auto
  from Cons.prems x
  have "drain_queue zoom q
          (acc @ [(\<lparr>scheme = json_scheme s, zoom_level = zoom, column = col, row = rw\<rparr>, content)])
          (add_loaded_tile zoom col rw s) = (res, s')"
    by simp
  from Cons.IH[OF this] x show ?case by (simp add: add_loaded_tile_def)
qed

lemma build_urls_spec:
  "set (map snd (build_urls s base zoom max_tiles index ts)) \<subseteq> {cr \<in> set ts. (zoom, cr) \<notin> set (loaded_tiles s)}
   \<and> (distinct ts \<longrightarrow> distinct (map snd (build_urls s base zoom max_tiles index ts)))"
proof (induction ts arbitrary: index)
  case Nil
  then show ?case by simp
next
  case (Cons t ts)
  obtain col rw where t: "t = (col, rw)" by (cases t) auto
  from Cons[of "index + 1"] t show ?case
    by (auto simp add: is_tile_loaded_def)
qed

lemma srv_load_tiles_spec:
  assumes ok: "threads_ok env" and d: "distinct (get_all_tiles env bnds)"
    and run: "srv_load_tiles env zoom bnds max_tiles fe s = (Inr res, s')"
  shows "loaded_tiles s' = loaded_tiles s @ map (key_of zoom) res
         \<and> distinct (map (key_of zoom) res)
         \<and> set (map (key_of zoom) res) \<inter> set (loaded_tiles s) = {}
         \<and> (\<forall>td \<in> set res. zoom_level (fst td) = zoom)"
proof -
  let ?s0 = "s\<lparr>cancelling := False\<rparr>"
  from run obtain base rest where jt: "json_tiles ?s0 = base # rest"
    by (cases "json_tiles ?s0") (auto simp add: srv_load_tiles_def)
  let ?urls = "build_urls ?s0 base zoom max_tiles 0 (get_all_tiles env bnds)"
  from run jt have ph: "progress_handler ?s0"
    by (auto simp add: srv_load_tiles_def Let_def split: if_splits)
  let ?s1 = "log_event (Message (length ?urls)) ?s0"
  obtain queue s2 where dp: "do_paged env fe 5 ?urls 0 0 [] ?s1 = (queue, s2)" by (metis surj_pair)
  from run jt ph dp have dr: "drain_queue zoom queue [] s2 = (res, s')"
    by (auto simp add: srv_load_tiles_def Let_def split: prod.splits)
  from do_paged_spec[OF ok dp] have q: "mset (map snd queue) \<subseteq># mset (map snd ?urls)"
    "loaded_tiles s2 = loaded_tiles s" by auto
  from build_urls_spec[of ?s0 base zoom max_tiles 0 "get_all_tiles env bnds"] d
  have u: "distinct (map snd ?urls)" "\<forall>cr \<in> set (map snd ?urls). (zoom, cr) \<notin> set (loaded_tiles s)"
    by auto
  from distinct_mset_subseteq[OF q(1) u(1)] have dq: "distinct (map snd queue)" .
  have nq: "\<forall>cr \<in> set (map snd queue). (zoom, cr) \<notin> set (loaded_tiles s)"
  proof
    fix cr
    assume "cr \<in> set (map snd queue)"
    then have "cr \<in> set (map snd ?urls)"
      using set_mset_mono[OF q(1)] by auto
    with u(2) show "(zoom, cr) \<notin> set (loaded_tiles s)" by blast
  qed
  from drain_queue_spec[OF dr] q(2)
  have r: "res = map (\<lambda>(content, col, rw).
                        (\<lparr>scheme = json_scheme s2, zoom_level = zoom, column = col, row = rw\<rparr>, content)) queue"
    "loaded_tiles s' = loaded_tiles s @ map (\<lambda>i. (zoom, snd i)) queue" by simp_all
  have k: "map (key_of zoom) res = map (\<lambda>i. (zoom, snd i)) queue"
    unfolding r(1) by (simp add: key_of_def split_beta)
  have "distinct (map (\<lambda>i. (zoom, snd i)) queue)"
    using dq by (simp add: distinct_map inj_on_def)
  moreover have "set (map (\<lambda>i. (zoom, snd i)) queue) \<inter> set (loaded_tiles s) = {}"
    using nq by auto
  moreover have "\<forall>td \<in> set res. zoom_level (fst td) = zoom"
    unfolding r(1) by (auto simp add: split_beta)
  ultimately show ?thesis using r(2) k by simp
qed


section \<open>No tile is delivered twice\<close>

text \<open>
  What the list of loaded tiles does guarantee. As long as the list is not cleared
  between them, two calls of the archive \<open>load_tiles\<close> with the same \<open>zoom_level\<close>
  argument return no column and row twice in total, and two calls of the remote
  \<open>load_tiles\<close>, whose candidate lists name no coordinate twice, return no tile
  coordinate twice in total, whatever their zoom levels are: the remote source builds
  each tile with the zoom level under which it records it.
\<close>

theorem no_tile_delivered_twice:
  "(mb_load_tiles env1 zoom b1 m1 f1 s = (Inr res1, s1)
      \<longrightarrow> set (loaded_tiles s1) \<subseteq> set (loaded_tiles t)
      \<longrightarrow> mb_load_tiles env2 zoom b2 m2 f2 t = (Inr res2, s2)
      \<longrightarrow> distinct (map (\<lambda>td. (column (fst td), row (fst td))) (res1 @ res2)))
   \<and> (threads_ok e1 \<longrightarrow> threads_ok e2
      \<longrightarrow> distinct (get_all_tiles e1 c1) \<longrightarrow> distinct (get_all_tiles e2 c2)
      \<longrightarrow> srv_load_tiles e1 z1 c1 n1 g1 u = (Inr r1, u1)
      \<longrightarrow> set (loaded_tiles u1) \<subseteq> set (loaded_tiles v)
      \<longrightarrow> srv_load_tiles e2 z2 c2 n2 g2 v = (Inr r2, u2)
      \<longrightarrow> distinct (map (\<lambda>td. (zoom_level (fst td), column (fst td), row (fst td))) (r1 @ r2)))"
proof (intro conjI impI)
  assume a: "mb_load_tiles env1 zoom b1 m1 f1 s = (Inr res1, s1)"
    and sub: "set (loaded_tiles s1) \<subseteq> set (loaded_tiles t)"
    and b: "mb_load_tiles env2 zoom b2 m2 f2 t = (Inr res2, s2)"
  from mb_load_tiles_spec[OF a] mb_load_tiles_spec[OF b] sub
  show "distinct (map (\<lambda>td. (column (fst td), row (fst td))) (res1 @ res2))"
    by (intro dedup_two_calls[of s1 s zoom res1 t res2]) simp_all
next
  assume ok: "threads_ok e1" "threads_ok e2"
    and d: "distinct (get_all_tiles e1 c1)" "distinct (get_all_tiles e2 c2)"
    and a: "srv_load_tiles e1 z1 c1 n1 g1 u = (Inr r1, u1)"
    and sub: "set (loaded_tiles u1) \<subseteq> set (loaded_tiles v)"
    and b: "srv_load_tiles e2 z2 c2 n2 g2 v = (Inr r2, u2)"
  let ?co = "\<lambda>td :: VectorTile \<times> string. (zoom_level (fst td), column (fst td), row (fst td))"
  from srv_load_tiles_spec[OF ok(1) d(1) a]
  have p1: "loaded_tiles u1 = loaded_tiles u @ map (key_of z1) r1" "distinct (map (key_of z1) r1)"
    "\<forall>td \<in> set r1. zoom_level (fst td) = z1" by simp_all
  from srv_load_tiles_spec[OF ok(2) d(2) b]
  have p2: "distinct (map (key_of z2) r2)" "set (map (key_of z2) r2) \<inter> set (loaded_tiles v) = {}"
    "\<forall>td \<in> set r2. zoom_level (fst td) = z2" by simp_all
  have k1: "map ?co r1 = map (key_of z1) r1" using p1(3) by (simp add: key_of_def)
  have k2: "map ?co r2 = map (key_of z2) r2" using p2(3) by (simp add: key_of_def)
  have "set (map (key_of z1) r1) \<inter> set (map (key_of z2) r2) = {}"
    using p1(1) sub p2(2) by auto
  with p1(2) p2(1) show "distinct (map ?co (r1 @ r2))"
    by (simp add: k1 k2)
qed

theorem no_tile_delivered_twice_witness:
  "fst (mb_load_tiles three_tile_env (Some 14) (Some ((1, 1), (1, 1))) None False ready_source)
     = Inr [(\<lparr>scheme = PyStr ''tms'', zoom_level = Some 14, column = 1, row = 1\<rparr>, ''b'')]
   \<and> fst (mb_load_tiles three_tile_env (Some 14) None None False
            (snd (mb_load_tiles three_tile_env (Some 14) (Some ((1, 1), (1, 1))) None False ready_source)))
     = Inr [(\<lparr>scheme = PyStr ''tms'', zoom_level = Some 14, column = 2, row = 1\<rparr>, ''c'')]
   \<and> distinct (map (\<lambda>td. (column (fst td), row (fst td)))
        ([(\<lparr>scheme = PyStr ''tms'', zoom_level = Some 14, column = 1, row = 1\<rparr>, ''b'')]
         @ [(\<lparr>scheme = PyStr ''tms'', zoom_level = Some 14, column = 2, row = 1\<rparr>, ''c'')]))
   \<and> threads_ok (grid_env grid3 never) \<and> distinct (get_all_tiles (grid_env grid3 never) None)
   \<and> distinct (map (\<lambda>td. (zoom_level (fst td), column (fst td), row (fst td)))
        (projr (fst (srv_load_tiles (grid_env grid3 never) (Some 3) None (Some 1) False ready_server))
         @ projr (fst (srv_load_tiles (grid_env grid3 never) (Some 3) None None False
             (snd (srv_load_tiles (grid_env grid3 never) (Some 3) None (Some 1) False ready_server))))))"
proof -
  let ?c1 = "mb_load_tiles three_tile_env (Some 14) (Some ((1, 1), (1, 1))) None False ready_source"
  let ?c2 = "mb_load_tiles three_tile_env (Some 14) None None False (snd ?c1)"
  let ?a = "(\<lparr>scheme = PyStr ''tms'', zoom_level = Some 14, column = 1, row = 1\<rparr>, ''b'')"
  let ?b = "(\<lparr>scheme = PyStr ''tms'', zoom_level = Some 14, column = 2, row = 1\<rparr>, ''c'')"
  have f1: "fst ?c1 = Inr [?a]" by code_simp
  have f2: "fst ?c2 = Inr [?b]" by code_simp
  have e1: "?c1 = (Inr [?a], snd ?c1)" using f1 by (metis prod.collapse)
  have e2: "?c2 = (Inr [?b], snd ?c2)" using f2 by (metis prod.collapse)
  let ?g = "grid_env grid3 never"
  let ?d1 = "srv_load_tiles ?g (Some 3) None (Some 1) False ready_server"
  let ?d2 = "srv_load_tiles ?g (Some 3) None None False (snd ?d1)"
  have ok: "threads_ok ?g" by (rule threads_ok_grid_env)
  have dg: "distinct (get_all_tiles ?g None)" by (simp add: grid_env_def grid3_def)
  have i1: "isl (fst ?d1) = False" by code_simp
  have i2: "isl (fst ?d2) = False" by code_simp
  have g1: "?d1 = (Inr (projr (fst ?d1)), snd ?d1)" using i1 by (metis prod.collapse sum.collapse(2))
  have g2: "?d2 = (Inr (projr (fst ?d2)), snd ?d2)" using i2 by (metis prod.collapse sum.collapse(2))
  from no_tile_delivered_twice[of three_tile_env "Some 14" "Some ((1, 1), (1, 1))" None False ready_source
      "[?a]" "snd ?c1" "snd ?c1" three_tile_env None None False "[?b]" "snd ?c2"
      ?g ?g None None "Some 3" "Some 1" False ready_server "projr (fst ?d1)" "snd ?d1" "snd ?d1"
      "Some 3" None False "projr (fst ?d2)" "snd ?d2"]
    e1 e2 ok dg g1 g2 f1 f2
  show ?thesis by simp
qed


section \<open>Cancellation\<close>





lemma threads_ok_cancel_env: "threads_ok (env\<lparr>cancel_req := c\<rparr>) = threads_ok env"
  by (simp add: threads_ok_def)











section \<open>Reprojection of the corners\<close>

text \<open>
  C5. For the tile of zoom level 0, column 0 and row 0, whose bounds are the world
  mercator extent \<open>(minX, minY, maxX, maxY)\<close>, \<open>_calculate_geometry\<close> maps the four corners
  \<open>(0, 0)\<close>, \<open>(E, 0)\<close>, \<open>(0, E)\<close> and \<open>(E, E)\<close> of the local extent \<open>E = 4096\<close> to the
  four corners of the world extent, truncated to integers, in the same order: lower
  left, lower right, upper left, upper right. The arithmetic is exact on both axes of
  the bounds in the sense of \<open>exact_span\<close>.
\<close>

theorem calculate_geometry_corners:
  assumes "zoom_level tile = Some 0" and "column tile = 0" and "row tile = 0"
    and "TileBounds fl 0 0 0 = (minX, minY, maxX, maxY)"
    and "exact_span fl minX maxX" and "exact_span fl minY maxY"
  shows "calculate_geometry fl (0, 0) tile
           = Inr (CList [CInt (f_trunc fl minX), CInt (f_trunc fl minY)])
       \<and> calculate_geometry fl (extent, 0) tile
           = Inr (CList [CInt (f_trunc fl maxX), CInt (f_trunc fl minY)])
       \<and> calculate_geometry fl (0, extent) tile
           = Inr (CList [CInt (f_trunc fl minX), CInt (f_trunc fl maxY)])
       \<and> calculate_geometry fl (extent, extent) tile
           = Inr (CList [CInt (f_trunc fl maxX), CInt (f_trunc fl maxY)])"
  using assms by (simp add: calculate_geometry_def exact_span_def Let_def)

theorem calculate_geometry_corners_witness:
  "TileBounds real_ops 0 0 0 = (- origin_shift, - origin_shift, origin_shift, origin_shift)
   \<and> exact_span real_ops (- origin_shift) origin_shift
   \<and> calculate_geometry real_ops (0, 0) tile_0_0_0 = Inr (CList [CInt (- 20037508), CInt (- 20037508)])
   \<and> calculate_geometry real_ops (extent, 0) tile_0_0_0 = Inr (CList [CInt 20037508, CInt (- 20037508)])
   \<and> calculate_geometry real_ops (0, extent) tile_0_0_0 = Inr (CList [CInt (- 20037508), CInt 20037508])
   \<and> calculate_geometry real_ops (extent, extent) tile_0_0_0 = Inr (CList [CInt 20037508, CInt 20037508])"
proof -
  have t: "zoom_level tile_0_0_0 = Some 0" "column tile_0_0_0 = 0" "row tile_0_0_0 = 0"
    by (simp_all add: tile_0_0_0_def)
  have b: "TileBounds real_ops 0 0 0 = (- origin_shift, - origin_shift, origin_shift, origin_shift)"
    by (simp add: real_ops_def mercator_bounds_def Let_def)
  have e: "exact_span real_ops (- origin_shift) origin_shift"
    by (simp add: exact_span_def real_ops_def extent_def Let_def)
  have tr: "f_trunc real_ops origin_shift = 20037508" "f_trunc real_ops (- origin_shift) = - 20037508"
    by (simp_all add: real_ops_def real_trunc_def origin_shift_def)
  from calculate_geometry_corners[OF t b e e] b e show ?thesis
    by (simp only: tr) 
qed

end
